theory Spec2Isabelle
  imports Complex_Main "HOL-Library.Word"
begin

section \<open>Numeric conventions\<close>

text \<open>
  The simulator computes with C++ \<open>double\<close>. The embedding reads every \<open>double\<close> as the
  real number it stands for and every operation as the exact operation: rounding is not
  modelled. The constant \<open>PI = 3.14159265358979323\<close> of \<open>simulation.cpp\<close> is read as
  \<open>\<pi>\<close>, and \<open>EPS = 1E-14\<close> as the rational \<open>10\<^sup>-\<^sup>1\<^sup>4\<close>.

  Where a divisor depends on a particle's direction and can be zero in a valid run
  (\<open>cos\<close> or \<open>sin\<close> of the direction), IEEE arithmetic yields an infinity or a NaN, both of
  which fail the range tests that follow the division; the embedding writes that
  outcome as an explicit branch.
\<close>

definition PI :: real where
  "PI = pi"

definition EPS :: real where
  "EPS = 1 / 10 ^ 14"

abbreviation LEFT :: nat where
  "LEFT \<equiv> 0"

abbreviation RIGHT :: nat where
  "RIGHT \<equiv> 1"

text \<open>The template \<open>sgn\<close>: \<open>(T(0) < val) - (val < T(0))\<close>, at \<open>double\<close> and at \<open>int\<close>.\<close>

definition sgn_val :: "real \<Rightarrow> int" where
  "sgn_val v = (if 0 < v then 1 else 0) - (if v < 0 then 1 else 0)"

definition sgn_int :: "int \<Rightarrow> int" where
  "sgn_int v = (if 0 < v then 1 else 0) - (if v < 0 then 1 else 0)"

text \<open>
  \<open>operator<\<close> of \<open>std::vector<double>\<close> is \<open>std::lexicographical_compare\<close>, and
  \<open>T(0)\<close> at \<open>T = std::vector<double>\<close> is the vector of size 0.
\<close>

fun vec_less :: "real list \<Rightarrow> real list \<Rightarrow> bool" where
  "vec_less _ [] = False"
| "vec_less [] (y # ys) = True"
| "vec_less (x # xs) (y # ys) = (if x < y then True else if y < x then False else vec_less xs ys)"

definition sgn_vec :: "real list \<Rightarrow> int" where
  "sgn_vec val = (if vec_less [] val then 1 else 0) - (if vec_less val [] then 1 else 0)"

text \<open>
  The C library's \<open>fmod\<close> and \<open>atan2\<close> on reals: \<open>fmod x y\<close> is \<open>x - n * y\<close> with \<open>n\<close> the
  quotient \<open>x / y\<close> truncated towards zero; \<open>atan2 y x\<close> is the argument of the point
  \<open>(x, y)\<close> in \<open>(-\<pi>, \<pi>]\<close>, and \<open>0\<close> at the origin.
\<close>

definition trunc_real :: "real \<Rightarrow> int" where
  "trunc_real x = (if 0 \<le> x then \<lfloor>x\<rfloor> else \<lceil>x\<rceil>)"

definition fmod :: "real \<Rightarrow> real \<Rightarrow> real" where
  "fmod x y = x - of_int (trunc_real (x / y)) * y"

definition atan2 :: "real \<Rightarrow> real \<Rightarrow> real" where
  "atan2 y x =
     (if 0 < x then arctan (y / x)
      else if x < 0 then (if 0 \<le> y then arctan (y / x) + pi else arctan (y / x) - pi)
      else if 0 < y then pi / 2
      else if y < 0 then - (pi / 2)
      else 0)"

section \<open>The simulation object\<close>

text \<open>
  The fields of \<open>class Simulation\<close> that \<open>simulation.cpp\<close> reads or writes. The random
  source \<open>(*unif_real)(*rng)\<close> is the stream \<open>rng_draws\<close> of the values it will return,
  with \<open>rng_used\<close> the number of values already drawn. File output is not modelled.
\<close>

record simulation =
  num_particles :: int
  left_gate_capacity :: int
  right_gate_capacity :: int
  in_left :: "64 word"
  circle_radius :: real
  circle_distance :: real
  bridge_height :: real
  left_center_x :: real
  right_center_x :: real
  max_path :: real
  bridge_length :: real
  explosion_direction_is_random :: bool
  gate_is_flat :: bool
  distance_as_channel_length :: bool
  time :: real
  last_written_time :: real
  next_impact_times :: "real list"
  impact_times :: "real list"
  next_x_pos :: "real list"
  next_y_pos :: "real list"
  x_pos :: "real list"
  y_pos :: "real list"
  directions :: "real list"
  next_directions :: "real list"
  in_left_gate :: "nat list"
  in_right_gate :: "nat list"
  measuring_times :: "real list"
  total_left :: "64 word list"
  currently_in_left_gate :: "nat list"
  currently_in_right_gate :: "nat list"
  gate_contents :: "nat list list"
  gate_arrays :: "nat list list"
  gate_capacities :: "real list"
  sorted_indices :: "nat list"
  reset_counter :: int
  rng_draws :: "nat \<Rightarrow> real"
  rng_used :: nat

text \<open>
  How a call can end other than by returning: a C++ exception, a loop that has not
  finished within the fuel given to it, an access the language leaves undefined
  (\<open>front()\<close> of an empty list, an iterator moved past the end), and a division by zero
  in \<open>get_current_position\<close>.
\<close>

datatype exn = invalid_argument | domain_error

datatype fault = Throw exn | OutOfFuel | Undefined | DivisionByZero

section \<open>Geometry\<close>

definition couple_bridge :: "simulation \<Rightarrow> simulation" where
  "couple_bridge s =
     (let discrepancy =
            2 * sqrt ((circle_radius s)\<^sup>2 - (bridge_height s)\<^sup>2 / 4) - 2 * circle_radius s
      in if distance_as_channel_length s
         then (let s1 = s\<lparr>bridge_length := circle_distance s\<rparr>
               in s1\<lparr>circle_distance := bridge_length s1 + discrepancy\<rparr>)
         else s\<lparr>bridge_length := circle_distance s - discrepancy\<rparr>)"

definition setup_sim :: "simulation \<Rightarrow> simulation" where
  "setup_sim s =
     (let n = nat (num_particles s);
          s1 = s\<lparr>next_impact_times := replicate n 0,
                 sorted_indices := replicate n 0,
                 impact_times := replicate n 0,
                 in_left_gate := replicate n 0,
                 in_right_gate := replicate n 0,
                 x_pos := replicate n 0,
                 y_pos := replicate n 0,
                 next_x_pos := replicate n 0,
                 next_y_pos := replicate n 0,
                 directions := replicate n 0,
                 next_directions := replicate n 0\<rparr>;
          s2 = s1\<lparr>gate_arrays := gate_arrays s1 @ [in_left_gate s1, in_right_gate s1]\<rparr>;
          s3 = s2\<lparr>gate_contents :=
                     gate_contents s2 @ [currently_in_left_gate s2, currently_in_right_gate s2]\<rparr>;
          s4 = s3\<lparr>gate_capacities :=
                     gate_capacities s3 @ [of_int (left_gate_capacity s3), of_int (right_gate_capacity s3)]\<rparr>;
          s5 = couple_bridge s4;
          s6 = s5\<lparr>left_center_x := - circle_distance s5 / 2 - circle_radius s5\<rparr>;
          s7 = s6\<lparr>right_center_x := circle_distance s6 / 2 + circle_radius s6\<rparr>
      in s7\<lparr>max_path := circle_distance s7 + bridge_height s7 + circle_radius s7 * 4\<rparr>)"

definition is_in_circle :: "simulation \<Rightarrow> real \<Rightarrow> real \<Rightarrow> nat \<Rightarrow> bool" where
  "is_in_circle s x y side =
     (if side = LEFT
      then (x - left_center_x s) * (x - left_center_x s) + y * y < circle_radius s * circle_radius s
      else (x - right_center_x s) * (x - right_center_x s) + y * y < circle_radius s * circle_radius s)"

definition is_in_bridge :: "simulation \<Rightarrow> real \<Rightarrow> real \<Rightarrow> bool" where
  "is_in_bridge s x y = (\<bar>x\<bar> \<le> bridge_length s / 2 \<and> \<bar>y\<bar> \<le> bridge_height s / 2)"

definition is_in_domain :: "simulation \<Rightarrow> real \<Rightarrow> real \<Rightarrow> bool" where
  "is_in_domain s x y =
     (if is_in_bridge s x y then True
      else if x < 0 then is_in_circle s x y LEFT
      else is_in_circle s x y RIGHT)"

definition is_in_gate :: "simulation \<Rightarrow> real \<Rightarrow> real \<Rightarrow> nat \<Rightarrow> bool" where
  "is_in_gate s x y direction =
     (if gate_is_flat s
      then of_int (int direction * 2 - 1) * x \<ge> 0 \<and> \<bar>x\<bar> \<le> bridge_length s / 2
      else of_int (int direction * 2 - 1) * x \<ge> 0 \<and> \<not> is_in_circle s x y direction)"

definition is_going_in :: "simulation \<Rightarrow> nat \<Rightarrow> bool" where
  "is_going_in s particle = (x_pos s ! particle * cos (directions s ! particle) \<le> 0)"

section \<open>The ray-casting kernel\<close>

definition get_reflection_angle :: "real \<Rightarrow> real \<Rightarrow> real" where
  "get_reflection_angle angle_in normal_angle = fmod (2 * normal_angle - angle_in + PI) (2 * PI)"

text \<open>
  \<open>time_to_hit_bridge\<close> and \<open>time_to_hit_circle\<close> write the normal of the surface hit to
  an output parameter and leave it alone when nothing is hit: they take the parameter's
  old value and return the time with the new value.
\<close>

definition time_to_hit_bridge :: "simulation \<Rightarrow> nat \<Rightarrow> real \<Rightarrow> real \<times> real" where
  "time_to_hit_bridge s particle normal_angle =
     (let px = x_pos s ! particle; py = y_pos s ! particle;
          rx = max_path s * cos (directions s ! particle);
          ry = max_path s * sin (directions s ! particle);
          sx = bridge_length s;
          sy = 0;
          denom = rx * sy - ry * sx
      in if denom = 0 then (1 * max_path s, normal_angle)
         else
          (let u1 = ((- bridge_length s / 2 - px) * ry - (- bridge_height s / 2 - py) * rx) / denom;
               u2 = ((- bridge_length s / 2 - px) * ry - (bridge_height s / 2 - py) * rx) / denom;
               t1 = ((- bridge_length s / 2 - px) * sy - (- bridge_height s / 2 - py) * sx) / denom;
               t2 = ((- bridge_length s / 2 - px) * sy - (bridge_height s / 2 - py) * sx) / denom;
               (min_t1, normal1) =
                  (if EPS < t1 \<and> t1 < 1 \<and> 0 \<le> u1 \<and> u1 \<le> 1
                   then (t1 - EPS, PI / 2) else (1, normal_angle));
               (min_t2, normal2) =
                  (if EPS < t2 \<and> t2 < min_t1 \<and> 0 \<le> u2 \<and> u2 \<le> 1
                   then (t2 - EPS, - PI / 2) else (min_t1, normal1))
           in (min_t2 * max_path s, normal2)))"

text \<open>
  \<open>circle_intersections\<close> writes the two roots to \<open>t1\<close> and \<open>t2\<close> when the discriminant is
  not negative and leaves them alone otherwise.
\<close>

definition circle_intersections :: "simulation \<Rightarrow> nat \<Rightarrow> real \<Rightarrow> real \<times> real \<Rightarrow> real \<times> real" where
  "circle_intersections s particle center_x t12 =
     (let px = x_pos s ! particle; py = y_pos s ! particle;
          add_x = max_path s * cos (directions s ! particle);
          add_y = max_path s * sin (directions s ! particle);
          t_pos_x = (px - center_x) / circle_radius s;
          t_pos_y = (py - 0) / circle_radius s;
          t_add_x = add_x / circle_radius s;
          t_add_y = add_y / circle_radius s;
          a = t_add_x * t_add_x + t_add_y * t_add_y;
          b = 2 * t_pos_x * t_add_x + 2 * t_pos_y * t_add_y;
          c = t_pos_x * t_pos_x + t_pos_y * t_pos_y - 1;
          D = b * b - 4 * a * c
      in if D \<ge> 0 then ((- b - sqrt D) / (2 * a), (- b + sqrt D) / (2 * a)) else t12)"

definition time_to_hit_circle :: "simulation \<Rightarrow> nat \<Rightarrow> real \<Rightarrow> real \<Rightarrow> real \<times> real" where
  "time_to_hit_circle s particle center_x normal_angle =
     (let px = x_pos s ! particle; py = y_pos s ! particle;
          add_x = max_path s * cos (directions s ! particle);
          add_y = max_path s * sin (directions s ! particle);
          (t1, t2) = circle_intersections s particle center_x (- 1, - 1);
          (min_t1, normal1) =
             (if EPS < t1 \<and> t1 < 1 \<and> \<not> is_in_bridge s (px + t1 * add_x) (py + t1 * add_y)
              then (t1 - EPS, atan2 (0 - (py + t1 * add_y)) (center_x - (px + t1 * add_x)))
              else (1, normal_angle));
          (min_t2, normal2) =
             (if EPS < t2 \<and> t2 < min_t1 \<and> \<not> is_in_bridge s (px + t2 * add_x) (py + t2 * add_y)
              then (t2 - EPS, atan2 (0 - (py + t2 * add_y)) (center_x - (px + t2 * add_x)))
              else (min_t1, normal1))
      in (min_t2 * max_path s, normal2))"

text \<open>
  One round of the loop over the two sides in the arc branch of \<open>time_to_hit_gate\<close>:
  \<open>min_t\<close>, \<open>t1\<close> and \<open>t2\<close> live across the rounds.
\<close>

definition gate_arc_round :: "simulation \<Rightarrow> nat \<Rightarrow> nat \<Rightarrow> real \<times> real \<times> real \<Rightarrow> real \<times> real \<times> real" where
  "gate_arc_round s particle direction acc =
     (case acc of (min_t, t1_old, t2_old) \<Rightarrow>
       (let px = x_pos s ! particle; py = y_pos s ! particle;
            add_x = max_path s * cos (directions s ! particle);
            add_y = max_path s * sin (directions s ! particle);
            center_x = (if direction = RIGHT then right_center_x s else left_center_x s);
            (t1, t2) = circle_intersections s particle center_x (t1_old, t2_old);
            min_t1 = (if EPS < t1 \<and> t1 < min_t \<and> is_in_bridge s (px + t1 * add_x) (py + t1 * add_y)
                      then t1 else min_t);
            min_t2 = (if EPS < t2 \<and> t2 < min_t1 \<and> is_in_bridge s (px + t2 * add_x) (py + t2 * add_y)
                      then t2 else min_t1)
        in (min_t2, t1, t2)))"

definition time_to_hit_gate :: "simulation \<Rightarrow> nat \<Rightarrow> real" where
  "time_to_hit_gate s particle =
     (let px = x_pos s ! particle
      in if gate_is_flat s
         then (if cos (directions s ! particle) = 0 then max_path s
               else
                (let to_left_gate = (- bridge_length s / 2 - px) / cos (directions s ! particle);
                     to_right_gate = (bridge_length s / 2 - px) / cos (directions s ! particle);
                     min_path1 = (if to_left_gate > 0 \<and> to_left_gate < max_path s
                                  then to_left_gate else max_path s);
                     min_path2 = (if to_right_gate > 0 \<and> to_right_gate < min_path1
                                  then to_right_gate else min_path1)
                 in min_path2))
         else (case gate_arc_round s particle RIGHT (gate_arc_round s particle LEFT (1, - 1, - 1)) of
                 (min_t, _, _) \<Rightarrow> min_t * max_path s))"

definition time_to_hit_middle :: "simulation \<Rightarrow> nat \<Rightarrow> real" where
  "time_to_hit_middle s particle =
     (let px = x_pos s ! particle; py = y_pos s ! particle;
          rx = max_path s * cos (directions s ! particle);
          ry = max_path s * sin (directions s ! particle);
          sx = 0;
          sy = bridge_height s
      in if rx * sy - ry * sx = 0 then 1 * max_path s
         else
          (let denum = 1 / (rx * sy - ry * sx);
               u = ((0 - px) * ry - (- bridge_height s / 2 - py) * rx) * denum;
               t = ((0 - px) * sy - (- bridge_height s / 2 - py) * sx) * denum;
               min_t = (if EPS < t \<and> t < 1 \<and> 0 \<le> u \<and> u \<le> 1 then t + EPS else 1)
           in min_t * max_path s))"

section \<open>The per-particle planner\<close>

definition draw :: "simulation \<Rightarrow> real" where
  "draw s = rng_draws s (rng_used s)"

definition drawn :: "simulation \<Rightarrow> simulation" where
  "drawn s = s\<lparr>rng_used := Suc (rng_used s)\<rparr>"

text \<open>
  The rejection loop of \<open>reset_particle\<close>. It ends when a sample is accepted; the fuel
  bounds the number of rounds.
\<close>

fun reset_sample :: "nat \<Rightarrow> simulation \<Rightarrow> nat \<Rightarrow> real \<Rightarrow> real \<Rightarrow> nat \<Rightarrow> fault + simulation" where
  "reset_sample 0 s particle box_x_radius box_y_radius direction = Inl OutOfFuel"
| "reset_sample (Suc fuel) s particle box_x_radius box_y_radius direction =
     (if \<not> is_in_circle s (x_pos s ! particle) (y_pos s ! particle) direction
         \<or> is_in_gate s (x_pos s ! particle) (y_pos s ! particle) direction
         \<or> is_in_bridge s (x_pos s ! particle) (y_pos s ! particle)
      then (let s1 = drawn (s\<lparr>x_pos := (x_pos s)[particle := (draw s - 0.5) * box_x_radius * 2]\<rparr>);
                s2 = drawn (s1\<lparr>y_pos := (y_pos s1)[particle := (draw s1 - 0.5) * box_y_radius * 2]\<rparr>)
            in reset_sample fuel s2 particle box_x_radius box_y_radius direction)
      else Inr s)"

definition reset_particle :: "nat \<Rightarrow> simulation \<Rightarrow> nat \<Rightarrow> real \<Rightarrow> real \<Rightarrow> nat \<Rightarrow> fault + simulation" where
  "reset_particle fuel s particle box_x_radius box_y_radius direction =
     (let s1 = s\<lparr>x_pos := (x_pos s)[particle := 0]\<rparr>;
          s2 = s1\<lparr>y_pos := (y_pos s1)[particle := 0]\<rparr>
      in case reset_sample fuel s2 particle box_x_radius box_y_radius direction of
           Inl e \<Rightarrow> Inl e
         | Inr s3 \<Rightarrow> Inr (drawn (s3\<lparr>directions := (directions s3)[particle := (draw s3 - 0.5) * 2 * PI]\<rparr>)))"

text \<open>
  The five candidates of \<open>compute_next_impact\<close>, in the order of the source, giving
  \<open>next_time\<close> and \<open>next_angle\<close>. The local \<open>angle\<close> is declared without a value; its
  initial content is the parameter \<open>angle\<close>.
\<close>

definition select_impact :: "simulation \<Rightarrow> nat \<Rightarrow> real \<Rightarrow> real \<times> real" where
  "select_impact s particle angle =
     (let next_time0 = max_path s;
          next_angle0 = 0;
          (to_bridge, angle1) = time_to_hit_bridge s particle angle;
          (next_time1, next_angle1) =
             (if to_bridge < next_time0
              then (to_bridge, get_reflection_angle (directions s ! particle) angle1)
              else (next_time0, next_angle0));
          (to_left, angle2) = time_to_hit_circle s particle (left_center_x s) angle1;
          (next_time2, next_angle2) =
             (if to_left < next_time1
              then (to_left, get_reflection_angle (directions s ! particle) angle2)
              else (next_time1, next_angle1));
          (to_right, angle3) = time_to_hit_circle s particle (right_center_x s) angle2;
          (next_time3, next_angle3) =
             (if to_right < next_time2
              then (to_right, get_reflection_angle (directions s ! particle) angle3)
              else (next_time2, next_angle2));
          to_gate = time_to_hit_gate s particle;
          (next_time4, next_angle4) =
             (if to_gate < next_time3
              then (to_gate + EPS, directions s ! particle)
              else (next_time3, next_angle3));
          to_middle = time_to_hit_middle s particle;
          (next_time5, next_angle5) =
             (if to_middle < next_time4
              then (to_middle + EPS, directions s ! particle)
              else (next_time4, next_angle4))
      in (next_time5, next_angle5))"

fun compute_next_impact :: "nat \<Rightarrow> simulation \<Rightarrow> nat \<Rightarrow> fault + simulation" where
  "compute_next_impact 0 s particle = Inl OutOfFuel"
| "compute_next_impact (Suc fuel) s particle =
     (case select_impact s particle 0 of
        (next_time, next_angle) \<Rightarrow>
          if next_time = max_path s
          then (let s1 = s\<lparr>reset_counter := reset_counter s + 1\<rparr>;
                    box_x_radius = circle_distance s1 / 2 + circle_radius s1 * 2;
                    box_y_radius = circle_radius s1;
                    direction = (if x_pos s1 ! particle > 0 then RIGHT else LEFT)
                in case reset_particle fuel s1 particle box_x_radius box_y_radius direction of
                     Inl e \<Rightarrow> Inl e
                   | Inr s2 \<Rightarrow> compute_next_impact fuel s2 particle)
          else Inr (s\<lparr>next_x_pos := (next_x_pos s)[particle :=
                                        x_pos s ! particle + next_time * cos (directions s ! particle)],
                       next_y_pos := (next_y_pos s)[particle :=
                                        y_pos s ! particle + next_time * sin (directions s ! particle)],
                       next_impact_times := (next_impact_times s)[particle := time s + next_time],
                       next_directions := (next_directions s)[particle := next_angle]\<rparr>))"

definition get_current_position :: "simulation \<Rightarrow> nat \<Rightarrow> fault + real \<times> real" where
  "get_current_position s particle =
     (if impact_times s ! particle = next_impact_times s ! particle
      then Inr (x_pos s ! particle, y_pos s ! particle)
      else (let divisor = impact_times s ! particle - next_impact_times s ! particle
            in if divisor = 0 then Inl DivisionByZero
               else Inr (x_pos s ! particle
                           + (next_x_pos s ! particle - x_pos s ! particle)
                             * (impact_times s ! particle - time s) / divisor,
                         y_pos s ! particle
                           + (next_y_pos s ! particle - y_pos s ! particle)
                             * (impact_times s ! particle - time s) / divisor)))"

definition get_retraction_angle :: "simulation \<Rightarrow> nat \<Rightarrow> real \<times> simulation" where
  "get_retraction_angle s particle =
     (if explosion_direction_is_random s
      then (let side = sgn_val (x_pos s ! particle)
            in ((draw s - 0.5) * PI + PI / 2 * of_int (1 - sgn_int side), drawn s))
      else (if cos (directions s ! particle) * x_pos s ! particle < 0
            then (directions s ! particle + PI, s)
            else (directions s ! particle, s)))"

section \<open>The event scheduler\<close>

definition sort_indices :: "simulation \<Rightarrow> simulation" where
  "sort_indices s =
     s\<lparr>sorted_indices :=
         sort_key (\<lambda>i. next_impact_times s ! i) [0..<length (sorted_indices s)]\<rparr>"

text \<open>
  The binary search of \<open>insert_index\<close> over the list \<open>sorted_indices\<close>: it returns the
  final \<open>l\<close>. Reading the list at a position it does not have is undefined.
\<close>

function insert_search :: "nat list \<Rightarrow> real list \<Rightarrow> real \<Rightarrow> nat \<Rightarrow> nat \<Rightarrow> fault + nat" where
  "insert_search idx keys impact_time l r =
     (if l < r
      then (let m = (l + r) div 2
            in if m < length idx
               then (if keys ! (idx ! m) < impact_time
                     then insert_search idx keys impact_time (m + 1) r
                     else insert_search idx keys impact_time l m)
               else Inl Undefined)
      else Inr l)"
  by pat_completeness auto
termination
  by (relation "measure (\<lambda>(idx, keys, impact_time, l, r). r - l)") auto

definition insert_index :: "simulation \<Rightarrow> nat \<Rightarrow> fault + simulation" where
  "insert_index s particle =
     (case insert_search (sorted_indices s) (next_impact_times s)
             (next_impact_times s ! particle) 0 (nat (num_particles s - 1)) of
        Inl e \<Rightarrow> Inl e
      | Inr l \<Rightarrow>
          if l \<le> length (sorted_indices s)
          then Inr (s\<lparr>sorted_indices :=
                        take l (sorted_indices s) @ particle # drop l (sorted_indices s)\<rparr>)
          else Inl Undefined)"

definition reindex_particle :: "simulation \<Rightarrow> nat \<Rightarrow> bool \<Rightarrow> fault + simulation" where
  "reindex_particle s particle was_minimum =
     (if was_minimum
      then (case sorted_indices s of
              [] \<Rightarrow> Inl Undefined
            | _ # rest \<Rightarrow> insert_index (s\<lparr>sorted_indices := rest\<rparr>) particle)
      else insert_index (s\<lparr>sorted_indices := removeAll particle (sorted_indices s)\<rparr>) particle)"

section \<open>The gate protocol\<close>

text \<open>The \<open>do ... while\<close> loop of \<open>explode_gate\<close> on the particle that set the explosion off.\<close>

fun explode_retract :: "nat \<Rightarrow> simulation \<Rightarrow> nat \<Rightarrow> fault + simulation" where
  "explode_retract 0 s exp_particle = Inl OutOfFuel"
| "explode_retract (Suc fuel) s exp_particle =
     (case get_retraction_angle s exp_particle of
        (a, s1) \<Rightarrow>
          (case compute_next_impact fuel (s1\<lparr>directions := (directions s1)[exp_particle := a]\<rparr>)
                  exp_particle of
             Inl e \<Rightarrow> Inl e
           | Inr s2 \<Rightarrow>
               if \<not> is_in_domain s2 (next_x_pos s2 ! exp_particle) (next_y_pos s2 ! exp_particle)
               then explode_retract fuel s2 exp_particle
               else Inr s2))"

text \<open>
  The range-based \<open>for\<close> over \<open>gate_contents[direction]\<close>. The loop fixes the end of the
  range when it starts and reads slot after slot of the vector's storage, while its body
  may erase from the same vector. \<open>std::remove\<close> moves the kept elements to the front and
  leaves the slots behind them as they were, and erasing \<open>unsigned long\<close>s only shortens
  the vector: \<open>buf\<close> is the storage over the original range, \<open>gate_contents\<close> the vector,
  and the loop visits the slots \<open>0, 1, ...\<close> of \<open>buf\<close>. (The standard leaves a loop over
  an erased range undefined; this is what the common library implementations do.)
\<close>

fun explode_residents :: "nat \<Rightarrow> simulation \<Rightarrow> nat list \<Rightarrow> nat list \<Rightarrow> nat \<Rightarrow> fault + simulation" where
  "explode_residents fuel s buf [] direction = Inr s"
| "explode_residents fuel s buf (i # slots) direction =
     (let particle = buf ! i
      in case get_current_position s particle of
           Inl e \<Rightarrow> Inl e
         | Inr (x, y) \<Rightarrow>
            (let kept = removeAll particle (gate_contents s ! direction);
                 (s1, buf1) =
                    (if \<not> is_in_domain s x y then (s, buf)
                     else if \<not> is_in_gate s x y direction
                     then (s\<lparr>gate_contents := (gate_contents s)[direction := kept]\<rparr>,
                           kept @ drop (length kept) buf)
                     else (s, buf));
                 s2 = s1\<lparr>x_pos := (x_pos s1)[particle := x]\<rparr>;
                 s3 = s2\<lparr>y_pos := (y_pos s2)[particle := y]\<rparr>;
                 (a, s4) = get_retraction_angle s3 particle;
                 s5 = s4\<lparr>directions := (directions s4)[particle := a]\<rparr>;
                 s6 = s5\<lparr>impact_times := (impact_times s5)[particle := time s5]\<rparr>
             in case compute_next_impact fuel s6 particle of
                  Inl e \<Rightarrow> Inl e
                | Inr s7 \<Rightarrow>
                   (case reindex_particle s7 particle False of
                      Inl e \<Rightarrow> Inl e
                    | Inr s8 \<Rightarrow> explode_residents fuel s8 buf1 slots direction)))"

definition explode_gate :: "nat \<Rightarrow> simulation \<Rightarrow> nat \<Rightarrow> nat \<Rightarrow> fault + simulation" where
  "explode_gate fuel s exp_particle direction =
     (case explode_retract fuel s exp_particle of
        Inl e \<Rightarrow> Inl e
      | Inr s1 \<Rightarrow>
          explode_residents fuel s1 (gate_contents s1 ! direction)
            [0..<length (gate_contents s1 ! direction)] direction)"

definition check_gate_admission :: "nat \<Rightarrow> simulation \<Rightarrow> nat \<Rightarrow> nat \<Rightarrow> fault + simulation" where
  "check_gate_admission fuel s particle direction =
     (if gate_arrays s ! direction ! particle = 0
      then (if real (length (gate_contents s ! direction)) > gate_capacities s ! direction - 1
            then explode_gate fuel s particle direction
            else Inr (s\<lparr>gate_contents :=
                          (gate_contents s)[direction := gate_contents s ! direction @ [particle]],
                        gate_arrays :=
                          (gate_arrays s)[direction := (gate_arrays s ! direction)[particle := 1]]\<rparr>))
      else Inr s)"

definition check_gate_departure :: "simulation \<Rightarrow> nat \<Rightarrow> nat \<Rightarrow> simulation" where
  "check_gate_departure s particle direction =
     (if gate_arrays s ! direction ! particle = 1
      then s\<lparr>gate_contents :=
               (gate_contents s)[direction := removeAll particle (gate_contents s ! direction)],
             gate_arrays :=
               (gate_arrays s)[direction := (gate_arrays s ! direction)[particle := 0]]\<rparr>
      else s)"

section \<open>The stepper\<close>

definition measure_step :: "simulation \<Rightarrow> simulation" where
  "measure_step s =
     s\<lparr>measuring_times := measuring_times s @ [time s], total_left := total_left s @ [in_left s]\<rparr>"

text \<open>
  The snapshot loop of \<open>update\<close>, for \<open>write_dt > 0\<close>: only its effect on
  \<open>last_written_time\<close> is kept.
\<close>

function emit_snapshots :: "real \<Rightarrow> real \<Rightarrow> real \<Rightarrow> real" where
  "emit_snapshots next_impact write_dt written =
     (if 0 < write_dt \<and> next_impact > written + write_dt
      then emit_snapshots next_impact write_dt (written + write_dt)
      else written)"
  by pat_completeness auto
termination
proof (relation "measure (\<lambda>(next_impact, write_dt, written). nat \<lceil>(next_impact - written) / write_dt\<rceil>)")
  show "wf (measure (\<lambda>(next_impact, write_dt, written). nat \<lceil>(next_impact - written) / write_dt\<rceil>))"
    by simp
next
  fix next_impact write_dt written :: real
  assume a: "0 < write_dt \<and> written + write_dt < next_impact"
  have e: "(next_impact - (written + write_dt)) / write_dt = (next_impact - written) / write_dt - 1"
    using a by (simp add: field_simps)
  have "1 < (next_impact - written) / write_dt"
    using a by (simp add: field_simps)
  then have "1 < \<lceil>(next_impact - written) / write_dt\<rceil>"
    by linarith
  then show "((next_impact, write_dt, written + write_dt), (next_impact, write_dt, written))
        \<in> measure (\<lambda>(next_impact, write_dt, written). nat \<lceil>(next_impact - written) / write_dt\<rceil>)"
    using e by simp
qed

text \<open>The safety repair of \<open>update\<close> (the test \<open>not is_in_domain\<close> and its two assignments).\<close>

definition update_repair :: "simulation \<Rightarrow> nat \<Rightarrow> simulation" where
  "update_repair s particle =
     (if \<not> is_in_domain s (next_x_pos s ! particle) (next_y_pos s ! particle)
      then (let s1 = s\<lparr>next_x_pos := (next_x_pos s)[particle :=
                          of_int (sgn_vec (next_x_pos s)) * (circle_distance s / 2 + circle_radius s)]\<rparr>
            in s1\<lparr>next_y_pos := (next_y_pos s1)[particle := 0]\<rparr>)
      else s)"

definition update_count :: "simulation \<Rightarrow> nat \<Rightarrow> simulation" where
  "update_count s particle =
     (if x_pos s ! particle > 0 \<and> next_x_pos s ! particle < 0 then s\<lparr>in_left := in_left s + 1\<rparr>
      else if x_pos s ! particle < 0 \<and> next_x_pos s ! particle > 0 then s\<lparr>in_left := in_left s - 1\<rparr>
      else s)"

definition update_commit :: "simulation \<Rightarrow> nat \<Rightarrow> real \<Rightarrow> simulation" where
  "update_commit s particle next_impact =
     (let s1 = s\<lparr>x_pos := (x_pos s)[particle := next_x_pos s ! particle]\<rparr>;
          s2 = s1\<lparr>y_pos := (y_pos s1)[particle := next_y_pos s1 ! particle]\<rparr>;
          s3 = s2\<lparr>directions := (directions s2)[particle := next_directions s2 ! particle]\<rparr>;
          s4 = s3\<lparr>impact_times := (impact_times s3)[particle := next_impact]\<rparr>
      in s4\<lparr>time := next_impact\<rparr>)"

text \<open>One round of the loop over the two gates in \<open>update\<close>.\<close>

definition update_gate :: "nat \<Rightarrow> simulation \<Rightarrow> nat \<Rightarrow> nat \<Rightarrow> fault + simulation" where
  "update_gate fuel s particle direction =
     (if is_in_gate s (x_pos s ! particle) (y_pos s ! particle) direction \<and> is_going_in s particle
      then check_gate_admission fuel s particle direction
      else Inr (check_gate_departure s particle direction))"

text \<open>
  \<open>update\<close> up to the commit of the selected particle's event (\<open>update_select\<close>), and from
  the gate loop to the measurement (\<open>update_finish\<close>). \<open>sorted_indices.front()\<close> of an
  empty list is undefined.
\<close>

definition update_select :: "simulation \<Rightarrow> real \<Rightarrow> nat \<Rightarrow> simulation" where
  "update_select s write_dt particle =
     (let next_impact = next_impact_times s ! particle;
          s1 = (if write_dt > 0
                then s\<lparr>last_written_time := emit_snapshots next_impact write_dt (last_written_time s)\<rparr>
                else s);
          s2 = update_repair s1 particle;
          s3 = update_count s2 particle
      in update_commit s3 particle next_impact)"

definition update_finish :: "nat \<Rightarrow> simulation \<Rightarrow> nat \<Rightarrow> fault + simulation" where
  "update_finish fuel s particle =
     (case update_gate fuel s particle LEFT of
        Inl e \<Rightarrow> Inl e
      | Inr s5 \<Rightarrow>
         (case update_gate fuel s5 particle RIGHT of
            Inl e \<Rightarrow> Inl e
          | Inr s6 \<Rightarrow>
             (case compute_next_impact fuel s6 particle of
                Inl e \<Rightarrow> Inl e
              | Inr s7 \<Rightarrow>
                 (case reindex_particle s7 particle True of
                    Inl e \<Rightarrow> Inl e
                  | Inr s8 \<Rightarrow> Inr (measure_step s8)))))"

definition update :: "nat \<Rightarrow> simulation \<Rightarrow> real \<Rightarrow> fault + simulation" where
  "update fuel s write_dt =
     (case sorted_indices s of
        [] \<Rightarrow> Inl Undefined
      | particle # _ \<Rightarrow> update_finish fuel (update_select s write_dt particle) particle)"

section \<open>Starting a run\<close>

text \<open>
  The two initialisation loops of \<open>start\<close>: the first, over the particles of the left
  side, also counts them in \<open>in_left\<close>.
\<close>

fun start_particles :: "nat \<Rightarrow> simulation \<Rightarrow> real \<Rightarrow> real \<Rightarrow> nat \<Rightarrow> nat list \<Rightarrow> fault + simulation" where
  "start_particles fuel s box_x_radius box_y_radius side [] = Inr s"
| "start_particles fuel s box_x_radius box_y_radius side (particle # rest) =
     (case reset_particle fuel s particle box_x_radius box_y_radius side of
        Inl e \<Rightarrow> Inl e
      | Inr s1 \<Rightarrow>
         (case compute_next_impact fuel s1 particle of
            Inl e \<Rightarrow> Inl e
          | Inr s2 \<Rightarrow>
              start_particles fuel (if side = LEFT then s2\<lparr>in_left := in_left s2 + 1\<rparr> else s2)
                box_x_radius box_y_radius side rest))"

definition start :: "nat \<Rightarrow> simulation \<Rightarrow> real \<Rightarrow> fault + simulation" where
  "start fuel s left_ratio =
     (let s1 = s\<lparr>time := 0, last_written_time := 0, in_left := 0\<rparr>;
          box_x_radius = circle_distance s1 / 2 + circle_radius s1 * 2;
          box_y_radius = circle_radius s1
      in if bridge_height s1 / 2 \<ge> box_y_radius then Inl (Throw invalid_argument)
         else if left_ratio * of_int (num_particles s1) < 0
                 \<or> left_ratio * of_int (num_particles s1) > of_int (num_particles s1)
         then Inl (Throw domain_error)
         else if distance_as_channel_length s1 \<and> \<not> gate_is_flat s1 then Inl (Throw domain_error)
         else
          (let num_left_particles = nat (trunc_real (left_ratio * of_int (num_particles s1)))
           in case start_particles fuel s1 box_x_radius box_y_radius LEFT [0..<num_left_particles] of
                Inl e \<Rightarrow> Inl e
              | Inr s2 \<Rightarrow>
                 (case start_particles fuel s2 box_x_radius box_y_radius RIGHT
                         [num_left_particles..<nat (num_particles s2)] of
                    Inl e \<Rightarrow> Inl e
                  | Inr s3 \<Rightarrow> Inr (measure_step (sort_indices s3)))))"

section \<open>Construction and reachable states\<close>

text \<open>
  The constructor sets the parameters, \<open>bridge_length\<close> and the random source, and leaves
  every vector empty; the members it does not mention keep the content \<open>mem\<close> of the
  storage the object is built in. \<open>reset_counter\<close> has the initialiser \<open>0\<close>.
\<close>

definition new_simulation ::
  "simulation \<Rightarrow> int \<Rightarrow> real \<Rightarrow> real \<Rightarrow> real \<Rightarrow> int \<Rightarrow> int \<Rightarrow> bool \<Rightarrow> bool \<Rightarrow> simulation" where
  "new_simulation mem n height radius distance left_capacity right_capacity random_dir flat_gate =
     mem\<lparr>num_particles := n, circle_radius := radius, circle_distance := distance,
         bridge_height := height, left_gate_capacity := left_capacity,
         right_gate_capacity := right_capacity, explosion_direction_is_random := random_dir,
         gate_is_flat := flat_gate, bridge_length := 0,
         next_impact_times := [], impact_times := [], next_x_pos := [], next_y_pos := [],
         x_pos := [], y_pos := [], directions := [], next_directions := [],
         in_left_gate := [], in_right_gate := [], measuring_times := [], total_left := [],
         currently_in_left_gate := [], currently_in_right_gate := [], gate_contents := [],
         gate_arrays := [], gate_capacities := [], sorted_indices := [],
         reset_counter := 0, rng_used := 0\<rparr>"

text \<open>
  What the constructor leaves behind for the gates, whatever the public parameters are
  set to before \<open>setup\<close>.
\<close>

definition constructed :: "simulation \<Rightarrow> bool" where
  "constructed s \<longleftrightarrow>
     gate_contents s = [] \<and> gate_arrays s = [] \<and> gate_capacities s = []
     \<and> currently_in_left_gate s = [] \<and> currently_in_right_gate s = []"

text \<open>The states of a run: \<open>setup\<close>, \<open>start\<close>, then any number of \<open>update\<close>s.\<close>

inductive reachable :: "simulation \<Rightarrow> bool" where
  started: "constructed s0 \<Longrightarrow> start fuel (setup_sim s0) left_ratio = Inr s \<Longrightarrow> reachable s"
| updated: "reachable s \<Longrightarrow> update fuel s write_dt = Inr s' \<Longrightarrow> reachable s'"

section \<open>Example configurations\<close>

definition blank_sim :: simulation where
  "blank_sim =
     \<lparr>num_particles = 0, left_gate_capacity = 0, right_gate_capacity = 0, in_left = 0,
      circle_radius = 0, circle_distance = 0, bridge_height = 0, left_center_x = 0,
      right_center_x = 0, max_path = 0, bridge_length = 0,
      explosion_direction_is_random = False, gate_is_flat = False,
      distance_as_channel_length = False, time = 0, last_written_time = 0,
      next_impact_times = [], impact_times = [], next_x_pos = [], next_y_pos = [],
      x_pos = [], y_pos = [], directions = [], next_directions = [],
      in_left_gate = [], in_right_gate = [], measuring_times = [], total_left = [],
      currently_in_left_gate = [], currently_in_right_gate = [], gate_contents = [],
      gate_arrays = [], gate_capacities = [], sorted_indices = [], reset_counter = 0,
      rng_draws = (\<lambda>n. 0), rng_used = 0\<rparr>"

text \<open>
  A dumbbell with radius 5, bridge height 6 and circle distance 2, a flat gate and room
  for one particle in each gate. \<open>setup\<close> gives it the bridge length 4, the centres
  \<open>\<plusminus>6\<close> and the maximal path 28.
\<close>

definition demo_sim :: "int \<Rightarrow> simulation" where
  "demo_sim n = setup_sim (new_simulation blank_sim n 6 5 2 1 1 False True)"

text \<open>One particle whose planned position \<open>(-20, 0)\<close> is far out on the left.\<close>

definition stray_sim :: simulation where
  "stray_sim = (demo_sim 1)\<lparr>next_x_pos := [- 20], next_y_pos := [0]\<rparr>"

text \<open>One particle committed on the mid-line, at \<open>(0, 1)\<close>.\<close>

definition midline_sim :: simulation where
  "midline_sim = (demo_sim 1)\<lparr>x_pos := [0], y_pos := [1]\<rparr>"

text \<open>One particle whose last and next event have the same time.\<close>

definition still_sim :: simulation where
  "still_sim = (demo_sim 1)\<lparr>x_pos := [- 6], y_pos := [2]\<rparr>"

section \<open>Auxiliary notions for the gate invariants\<close>

text \<open>
  \<open>gate_frame\<close>: a step leaves the three gate members alone. \<open>gate_shrink\<close>: it leaves
  the flags and capacities alone and only takes elements out of the gate lists.
  \<open>within_capacity\<close>: the occupancy of a gate is at most its capacity.
\<close>

definition gate_frame :: "simulation \<Rightarrow> simulation \<Rightarrow> bool" where
  "gate_frame s s' \<longleftrightarrow>
     gate_contents s' = gate_contents s \<and> gate_arrays s' = gate_arrays s
     \<and> gate_capacities s' = gate_capacities s"

definition gate_shrink :: "simulation \<Rightarrow> simulation \<Rightarrow> bool" where
  "gate_shrink s s' \<longleftrightarrow>
     gate_arrays s' = gate_arrays s \<and> gate_capacities s' = gate_capacities s
     \<and> (\<forall>d. length (gate_contents s' ! d) \<le> length (gate_contents s ! d)
            \<and> set (gate_contents s' ! d) \<subseteq> set (gate_contents s ! d))"

definition within_capacity :: "simulation \<Rightarrow> nat \<Rightarrow> bool" where
  "within_capacity s d \<longleftrightarrow> real (length (gate_contents s ! d)) \<le> gate_capacities s ! d"

section \<open>Example runs\<close>

text \<open>The geometry of \<open>demo_sim\<close>, as a predicate on states.\<close>

definition demo_geom :: "simulation \<Rightarrow> bool" where
  "demo_geom s \<longleftrightarrow> circle_radius s = 5 \<and> circle_distance s = 2 \<and> bridge_height s = 6
     \<and> bridge_length s = 4 \<and> left_center_x s = - 6 \<and> right_center_x s = 6 \<and> max_path s = 28
     \<and> gate_is_flat s \<and> \<not> explosion_direction_is_random s"

text \<open>
  A run of one particle: the random source puts it at the centre \<open>(-6, 0)\<close> of the left
  reservoir with direction \<open>0\<close>; \<open>lone_started\<close> is the state after \<open>start\<close>, and
  \<open>lone_in_gate\<close> the state after the first \<open>update\<close>, which takes the particle across
  the left gate line.
\<close>

definition demo_rng :: "nat \<Rightarrow> real" where
  "demo_rng n = (if n = 0 then 5 / 22 else 1 / 2)"

definition lone_config :: simulation where
  "lone_config = new_simulation (blank_sim\<lparr>rng_draws := demo_rng\<rparr>) 1 6 5 2 1 1 False True"

definition lone_started :: simulation where
  "lone_started = (demo_sim 1)
     \<lparr>rng_draws := demo_rng, rng_used := 3, in_left := 1, x_pos := [- 6], directions := [0],
      next_x_pos := [- 2 + EPS], next_impact_times := [4 + EPS], sorted_indices := [0],
      measuring_times := [0], total_left := [1]\<rparr>"

definition lone_in_gate :: simulation where
  "lone_in_gate = lone_started
     \<lparr>x_pos := [- 2 + EPS], impact_times := [4 + EPS], time := 4 + EPS,
      gate_contents := [[0], []], gate_arrays := [[1], [0]],
      next_x_pos := [29 * EPS], next_impact_times := [6 + 29 * EPS],
      measuring_times := [0, 4 + EPS], total_left := [1, 1]\<rparr>"

text \<open>
  A run of two particles on the axis of the left reservoir, at \<open>(-3, 0)\<close> and
  \<open>(-5, 0)\<close>, both with direction \<open>0\<close>. \<open>pair_started\<close> is the state after \<open>start\<close>;
  in \<open>pair_admitted\<close> particle 0 has entered the left gate at time \<open>1 + EPS\<close> and is
  planned to cross the mid-line; in \<open>pair_exploded\<close> particle 1 has reached the gate at
  time \<open>3 + EPS\<close>, found it full and set off the explosion.
\<close>

definition pair_rng :: "nat \<Rightarrow> real" where
  "pair_rng n = (if n = 0 then 4 / 11 else if n = 3 then 3 / 11 else 1 / 2)"

definition pair_config :: simulation where
  "pair_config = new_simulation (blank_sim\<lparr>rng_draws := pair_rng\<rparr>) 2 6 5 2 1 1 False True"

definition pair_started :: simulation where
  "pair_started = (demo_sim 2)
     \<lparr>rng_draws := pair_rng, rng_used := 6, in_left := 2, x_pos := [- 3, - 5],
      next_x_pos := [- 2 + EPS, - 2 + EPS], next_impact_times := [1 + EPS, 3 + EPS],
      sorted_indices := [0, 1], measuring_times := [0], total_left := [2]\<rparr>"

definition pair_admitted :: simulation where
  "pair_admitted = pair_started
     \<lparr>x_pos := [- 2 + EPS, - 5], impact_times := [1 + EPS, 0], time := 1 + EPS,
      gate_contents := [[0], []], gate_arrays := [[1, 0], [0, 0]],
      next_x_pos := [29 * EPS, - 2 + EPS], next_impact_times := [3 + 29 * EPS, 3 + EPS],
      sorted_indices := [1, 0], measuring_times := [0, 1 + EPS], total_left := [2, 2]\<rparr>"

definition pair_exploded :: simulation where
  "pair_exploded = pair_admitted
     \<lparr>x_pos := [EPS, - 2 + EPS], directions := [0, pi], impact_times := [3 + EPS, 3 + EPS],
      time := 3 + EPS, gate_contents := [[], []],
      next_x_pos := [2 + EPS, - 2 - EPS], next_directions := [0, pi],
      next_impact_times := [5 + EPS, 3 + 3 * EPS],
      measuring_times := [0, 1 + EPS, 3 + EPS], total_left := [2, 2, 2]\<rparr>"

text \<open>
  A run of three particles: particles 0 and 1 both at \<open>(-3, 0)\<close> with direction \<open>0\<close>,
  so that they reach the left gate line at the same time \<open>1 + EPS\<close>, and particle 2 at
  the centre \<open>(6, 0)\<close> of the right reservoir with direction \<open>0\<close>, due at the right arc
  at \<open>5 - 28 EPS\<close>. The states are those after \<open>start\<close> and after each of five
  \<open>update\<close>s.
\<close>

definition trio_rng :: "nat \<Rightarrow> real" where
  "trio_rng n = (if n = 0 \<or> n = 3 then 4 / 11 else if n = 6 then 17 / 22 else 1 / 2)"

definition trio_config :: simulation where
  "trio_config = new_simulation (blank_sim\<lparr>rng_draws := trio_rng\<rparr>) 3 6 5 2 1 1 False True"

definition trio_started :: simulation where
  "trio_started = (demo_sim 3)
     \<lparr>rng_draws := trio_rng, rng_used := 9, in_left := 2, x_pos := [- 3, - 3, 6],
      next_x_pos := [- 2 + EPS, - 2 + EPS, 11 - 28 * EPS],
      next_directions := [0, 0, pi],
      next_impact_times := [1 + EPS, 1 + EPS, 5 - 28 * EPS],
      sorted_indices := [0, 1, 2], measuring_times := [0], total_left := [2]\<rparr>"

definition trio_admitted :: simulation where
  "trio_admitted = trio_started
     \<lparr>x_pos := [- 2 + EPS, - 3, 6], impact_times := [1 + EPS, 0, 0], time := 1 + EPS,
      gate_contents := [[0], []], gate_arrays := [[1, 0, 0], [0, 0, 0]],
      next_x_pos := [29 * EPS, - 2 + EPS, 11 - 28 * EPS],
      next_impact_times := [3 + 29 * EPS, 1 + EPS, 5 - 28 * EPS],
      sorted_indices := [1, 0, 2], measuring_times := [0, 1 + EPS], total_left := [2, 2]\<rparr>"

definition trio_exploded :: simulation where
  "trio_exploded = trio_admitted
     \<lparr>x_pos := [- 2 + EPS, - 2 + EPS, 6], directions := [pi, pi, 0],
      impact_times := [1 + EPS, 1 + EPS, 0],
      next_x_pos := [- 2 - EPS, - 2 - EPS, 11 - 28 * EPS],
      next_directions := [pi, pi, pi],
      next_impact_times := [1 + 3 * EPS, 1 + 3 * EPS, 5 - 28 * EPS],
      sorted_indices := [1, 1, 2],
      measuring_times := [0, 1 + EPS, 1 + EPS], total_left := [2, 2, 2]\<rparr>"

definition trio_left_gate :: simulation where
  "trio_left_gate = trio_exploded
     \<lparr>x_pos := [- 2 + EPS, - 2 - EPS, 6], impact_times := [1 + EPS, 1 + 3 * EPS, 0],
      time := 1 + 3 * EPS,
      next_x_pos := [- 2 - EPS, - 11 + 28 * EPS, 11 - 28 * EPS],
      next_directions := [pi, 0, pi],
      next_impact_times := [1 + 3 * EPS, 10 - 26 * EPS, 5 - 28 * EPS],
      sorted_indices := [1, 2, 1],
      measuring_times := [0, 1 + EPS, 1 + EPS, 1 + 3 * EPS], total_left := [2, 2, 2, 2]\<rparr>"

definition trio_late :: simulation where
  "trio_late = trio_left_gate
     \<lparr>x_pos := [- 2 + EPS, - 11 + 28 * EPS, 6], directions := [pi, 0, 0],
      impact_times := [1 + EPS, 10 - 26 * EPS, 0],
      time := 10 - 26 * EPS,
      next_x_pos := [- 2 - EPS, - 2 + EPS, 11 - 28 * EPS],
      next_impact_times := [1 + 3 * EPS, 19 - 53 * EPS, 5 - 28 * EPS],
      sorted_indices := [2, 1, 1],
      measuring_times := [0, 1 + EPS, 1 + EPS, 1 + 3 * EPS, 10 - 26 * EPS],
      total_left := [2, 2, 2, 2, 2]\<rparr>"

definition trio_back :: simulation where
  "trio_back = trio_late
     \<lparr>x_pos := [- 2 + EPS, - 11 + 28 * EPS, 11 - 28 * EPS], directions := [pi, 0, pi],
      impact_times := [1 + EPS, 10 - 26 * EPS, 5 - 28 * EPS],
      time := 5 - 28 * EPS,
      next_x_pos := [- 2 - EPS, - 2 + EPS, 2 - EPS],
      next_impact_times := [1 + 3 * EPS, 19 - 53 * EPS, 14 - 55 * EPS],
      measuring_times := [0, 1 + EPS, 1 + EPS, 1 + 3 * EPS, 10 - 26 * EPS, 5 - 28 * EPS],
      total_left := [2, 2, 2, 2, 2, 2]\<rparr>"

section \<open>Auxiliary notions for the ray-casting kernel\<close>

text \<open>
  \<open>coupled\<close>: the relations between the geometric members that \<open>setup\<close> establishes,
  in both modes of \<open>couple_bridge\<close>. \<open>centre_drop\<close>: such a geometry with
  \<open>0 < R\<close>, \<open>0 \<le> h < 2 R\<close>, \<open>0 \<le> D\<close> and \<open>EPS * max_path < R\<close>, and the particle at the
  centre of the left reservoir with direction \<open>-\<pi>/2\<close>.
\<close>

definition coupled :: "simulation \<Rightarrow> bool" where
  "coupled s \<longleftrightarrow>
     left_center_x s = - circle_distance s / 2 - circle_radius s
     \<and> right_center_x s = circle_distance s / 2 + circle_radius s
     \<and> max_path s = circle_distance s + bridge_height s + circle_radius s * 4
     \<and> bridge_length s = circle_distance s
          - (2 * sqrt ((circle_radius s)\<^sup>2 - (bridge_height s)\<^sup>2 / 4) - 2 * circle_radius s)"

definition centre_drop :: "simulation \<Rightarrow> nat \<Rightarrow> bool" where
  "centre_drop s p \<longleftrightarrow>
     coupled s \<and> 0 < circle_radius s \<and> 0 \<le> bridge_height s
     \<and> bridge_height s < 2 * circle_radius s \<and> 0 \<le> circle_distance s
     \<and> EPS * max_path s < circle_radius s
     \<and> x_pos s ! p = left_center_x s \<and> y_pos s ! p = 0 \<and> directions s ! p = - PI / 2"

text \<open>
  \<open>on_circle s p c T\<close>: after the travel time \<open>T\<close> the particle is on the circle of
  radius \<open>R\<close> around \<open>(c, 0)\<close>. \<open>arc_root\<close>: the ray parameter \<open>t\<close> (the time divided by
  \<open>max_path\<close>) takes it to one of the two reservoir circles.
\<close>

definition on_circle :: "simulation \<Rightarrow> nat \<Rightarrow> real \<Rightarrow> real \<Rightarrow> bool" where
  "on_circle s p c T \<longleftrightarrow>
     (x_pos s ! p + T * cos (directions s ! p) - c)\<^sup>2
       + (y_pos s ! p + T * sin (directions s ! p))\<^sup>2 = (circle_radius s)\<^sup>2"

definition arc_root :: "simulation \<Rightarrow> nat \<Rightarrow> real \<Rightarrow> bool" where
  "arc_root s p t \<longleftrightarrow>
     on_circle s p (left_center_x s) (t * max_path s)
     \<or> on_circle s p (right_center_x s) (t * max_path s)"

text \<open>
  Single particles in the example dumbbell: at the centre of the left reservoir
  heading straight down; at the origin heading straight up; at \<open>(-1, 0)\<close> heading right.
\<close>

definition drop_sim :: simulation where
  "drop_sim = (demo_sim 1)\<lparr>x_pos := [- 6], directions := [- PI / 2]\<rparr>"

definition rail_sim :: simulation where
  "rail_sim = (demo_sim 1)\<lparr>directions := [PI / 2]\<rparr>"

definition midway_sim :: simulation where
  "midway_sim = (demo_sim 1)\<lparr>x_pos := [- 1]\<rparr>"

section \<open>Auxiliary notions for the initialisation\<close>

text \<open>
  \<open>accepted s p d\<close>: the position of particle \<open>p\<close> passes the test that ends the
  rejection loop of \<open>reset_particle\<close> for the side \<open>d\<close>. \<open>placed\<close>: it does so for one
  of the two sides. \<open>moves_only p\<close>: a step leaves the geometry, the time and the
  positions of all particles other than \<open>p\<close> alone. \<open>valid_start\<close>: none of the three
  tests of \<open>start\<close> fires.
\<close>

definition accepted :: "simulation \<Rightarrow> nat \<Rightarrow> nat \<Rightarrow> bool" where
  "accepted s p d \<longleftrightarrow>
     is_in_circle s (x_pos s ! p) (y_pos s ! p) d
     \<and> \<not> is_in_gate s (x_pos s ! p) (y_pos s ! p) d
     \<and> \<not> is_in_bridge s (x_pos s ! p) (y_pos s ! p)"

definition placed :: "simulation \<Rightarrow> nat \<Rightarrow> bool" where
  "placed s p \<longleftrightarrow> accepted s p LEFT \<or> accepted s p RIGHT"

definition moves_only :: "nat \<Rightarrow> simulation \<Rightarrow> simulation \<Rightarrow> bool" where
  "moves_only p s s' \<longleftrightarrow>
     num_particles s' = num_particles s \<and> circle_radius s' = circle_radius s
     \<and> circle_distance s' = circle_distance s \<and> bridge_height s' = bridge_height s
     \<and> bridge_length s' = bridge_length s \<and> left_center_x s' = left_center_x s
     \<and> right_center_x s' = right_center_x s \<and> max_path s' = max_path s
     \<and> gate_is_flat s' = gate_is_flat s \<and> time s' = time s
     \<and> (\<forall>q. q \<noteq> p \<longrightarrow> x_pos s' ! q = x_pos s ! q \<and> y_pos s' ! q = y_pos s ! q)"

definition valid_start :: "simulation \<Rightarrow> real \<Rightarrow> bool" where
  "valid_start s left_ratio \<longleftrightarrow>
     \<not> (2 * circle_radius s \<le> bridge_height s
        \<or> left_ratio * of_int (num_particles s) < 0
        \<or> of_int (num_particles s) < left_ratio * of_int (num_particles s)
        \<or> distance_as_channel_length s \<and> \<not> gate_is_flat s)"

section \<open>The example dumbbell\<close>

lemma demo_sim_eq:
  "demo_sim n =
     \<lparr>num_particles = n, left_gate_capacity = 1, right_gate_capacity = 1, in_left = 0,
      circle_radius = 5, circle_distance = 2, bridge_height = 6, left_center_x = - 6,
      right_center_x = 6, max_path = 28, bridge_length = 4,
      explosion_direction_is_random = False, gate_is_flat = True,
      distance_as_channel_length = False, time = 0, last_written_time = 0,
      next_impact_times = replicate (nat n) 0, impact_times = replicate (nat n) 0,
      next_x_pos = replicate (nat n) 0, next_y_pos = replicate (nat n) 0,
      x_pos = replicate (nat n) 0, y_pos = replicate (nat n) 0,
      directions = replicate (nat n) 0, next_directions = replicate (nat n) 0,
      in_left_gate = replicate (nat n) 0, in_right_gate = replicate (nat n) 0,
      measuring_times = [], total_left = [],
      currently_in_left_gate = [], currently_in_right_gate = [], gate_contents = [[], []],
      gate_arrays = [replicate (nat n) 0, replicate (nat n) 0], gate_capacities = [1, 1],
      sorted_indices = replicate (nat n) 0, reset_counter = 0,
      rng_draws = (\<lambda>n. 0), rng_used = 0\<rparr>"
  by (simp add: demo_sim_def setup_sim_def new_simulation_def blank_sim_def
      couple_bridge_def Let_def)

section \<open>Reflection\<close>

lemma fmod_shift: "\<exists>k::int. fmod x y = x + of_int k * y"
proof -
  have "fmod x y = x + of_int (- trunc_real (x / y)) * y"
    by (simp add: fmod_def)
  then show ?thesis by blast
qed

lemma trunc_real_close: "\<bar>x - of_int (trunc_real x)\<bar> < 1"
  unfolding trunc_real_def by (simp; linarith)

lemma fmod_bound:
  assumes "y \<noteq> 0"
  shows "\<bar>fmod x y\<bar> < \<bar>y\<bar>"
proof -
  have "fmod x y = (x / y - of_int (trunc_real (x / y))) * y"
    using assms by (simp add: fmod_def field_simps)
  then have "\<bar>fmod x y\<bar> = \<bar>x / y - of_int (trunc_real (x / y))\<bar> * \<bar>y\<bar>"
    by (simp add: abs_mult)
  also have "\<dots> < 1 * \<bar>y\<bar>"
    using trunc_real_close [of "x / y"] assms by (intro mult_strict_right_mono) auto
  finally show ?thesis by simp
qed

text \<open>
  Claim C7. Reflecting twice at the same normal gives the incoming angle back up to a
  multiple of \<open>2\<pi>\<close>, for every angle and every normal; one reflection is
  \<open>2 n - \<alpha> + \<pi>\<close> reduced by a multiple of \<open>2\<pi>\<close> to a value of absolute value below
  \<open>2\<pi>\<close>.
\<close>

theorem reflection_twice_is_identity_mod_2pi:
  "(\<exists>k::int. get_reflection_angle (get_reflection_angle alpha n) n = alpha + of_int k * (2 * PI))
   \<and> (\<exists>j::int. get_reflection_angle alpha n = 2 * n - alpha + PI + of_int j * (2 * PI))
   \<and> \<bar>get_reflection_angle alpha n\<bar> < 2 * PI"
proof (intro conjI)
  obtain j :: int where j: "get_reflection_angle alpha n = 2 * n - alpha + PI + of_int j * (2 * PI)"
    unfolding get_reflection_angle_def using fmod_shift by blast
  obtain i :: int where i: "get_reflection_angle (get_reflection_angle alpha n) n
      = 2 * n - get_reflection_angle alpha n + PI + of_int i * (2 * PI)"
    unfolding get_reflection_angle_def using fmod_shift by blast
  have "get_reflection_angle (get_reflection_angle alpha n) n = alpha + of_int (i - j) * (2 * PI)"
    unfolding i unfolding j by (simp add: algebra_simps)
  then show "\<exists>k::int. get_reflection_angle (get_reflection_angle alpha n) n = alpha + of_int k * (2 * PI)"
    by blast
  show "\<exists>j::int. get_reflection_angle alpha n = 2 * n - alpha + PI + of_int j * (2 * PI)"
    using j by blast
  have "2 * PI \<noteq> 0" by (simp add: PI_def)
  from fmod_bound [OF this] show "\<bar>get_reflection_angle alpha n\<bar> < 2 * PI"
    unfolding get_reflection_angle_def by (simp add: PI_def)
qed

section \<open>Interpolated positions\<close>

text \<open>
  Claim C10. \<open>get_current_position\<close> never divides by zero: it always returns a
  position, and when the particle's last and next event have the same time it returns
  the stored position.
\<close>

theorem get_current_position_total:
  "(\<exists>xy. get_current_position s particle = Inr xy)
   \<and> (impact_times s ! particle = next_impact_times s ! particle \<longrightarrow>
        get_current_position s particle = Inr (x_pos s ! particle, y_pos s ! particle))"
  by (simp add: get_current_position_def Let_def)

theorem get_current_position_total_witness:
  "(\<exists>xy. get_current_position still_sim 0 = Inr xy)
   \<and> impact_times still_sim ! 0 = next_impact_times still_sim ! 0
   \<and> get_current_position still_sim 0 = Inr (- 6, 2)"
  using get_current_position_total [of still_sim 0]
  by (simp add: still_sim_def demo_sim_eq)

section \<open>The mid-line and the two gates\<close>

text \<open>
  Claim C9. A particle on the mid-line \<open>x = 0\<close> is in both gates: with a flat gate (of a
  bridge that has a length) for every \<open>y\<close>, with an arc gate whenever \<open>(0, y)\<close> is outside
  both reservoir circles. It also counts as going in, so each of the two rounds of the
  gate loop of \<open>update\<close> that finds it there calls \<open>check_gate_admission\<close>.
\<close>

theorem midline_particle_in_both_gates:
  assumes "x_pos s ! particle = 0"
    and "gate_is_flat s \<longrightarrow> 0 \<le> bridge_length s"
    and "\<not> gate_is_flat s \<longrightarrow>
           \<not> is_in_circle s 0 (y_pos s ! particle) LEFT \<and> \<not> is_in_circle s 0 (y_pos s ! particle) RIGHT"
  shows "is_in_gate s 0 (y_pos s ! particle) LEFT \<and> is_in_gate s 0 (y_pos s ! particle) RIGHT
    \<and> is_going_in s particle
    \<and> update_gate fuel s particle LEFT = check_gate_admission fuel s particle LEFT
    \<and> update_gate fuel s particle RIGHT = check_gate_admission fuel s particle RIGHT"
  using assms by (simp add: is_in_gate_def is_going_in_def update_gate_def)

theorem midline_particle_in_both_gates_witness:
  "x_pos midline_sim ! 0 = 0 \<and> gate_is_flat midline_sim \<and> 0 \<le> bridge_length midline_sim
   \<and> is_in_gate midline_sim 0 (y_pos midline_sim ! 0) LEFT
   \<and> is_in_gate midline_sim 0 (y_pos midline_sim ! 0) RIGHT
   \<and> is_going_in midline_sim 0
   \<and> update_gate 1 midline_sim 0 LEFT = check_gate_admission 1 midline_sim 0 LEFT
   \<and> update_gate 1 midline_sim 0 RIGHT = check_gate_admission 1 midline_sim 0 RIGHT"
proof -
  have a: "x_pos midline_sim ! 0 = 0"
    by (simp add: midline_sim_def)
  have b: "gate_is_flat midline_sim \<and> 0 \<le> bridge_length midline_sim"
    by (simp add: midline_sim_def demo_sim_eq)
  show ?thesis
    using midline_particle_in_both_gates [of midline_sim 0 1] a b by simp
qed

section \<open>Frame properties of the gate members\<close>

lemma gate_frame_refl [simp]: "gate_frame s s"
  by (simp add: gate_frame_def)

lemma gate_frame_trans: "gate_frame s s1 \<Longrightarrow> gate_frame s1 s2 \<Longrightarrow> gate_frame s s2"
  by (simp add: gate_frame_def)

lemma reset_sample_frame:
  "reset_sample fuel s p bx by d = Inr s' \<Longrightarrow> gate_frame s s'"
proof (induction fuel arbitrary: s)
  case 0
  then show ?case by simp
next
  case (Suc fuel)
  show ?case
  proof (cases "\<not> is_in_circle s (x_pos s ! p) (y_pos s ! p) d
         \<or> is_in_gate s (x_pos s ! p) (y_pos s ! p) d
         \<or> is_in_bridge s (x_pos s ! p) (y_pos s ! p)")
    case True
    with Suc.prems have "gate_frame
        (drawn (drawn (s\<lparr>x_pos := (x_pos s)[p := (draw s - 0.5) * bx * 2]\<rparr>)
           \<lparr>y_pos := (y_pos (drawn (s\<lparr>x_pos := (x_pos s)[p := (draw s - 0.5) * bx * 2]\<rparr>)))
               [p := (draw (drawn (s\<lparr>x_pos := (x_pos s)[p := (draw s - 0.5) * bx * 2]\<rparr>)) - 0.5) * by * 2]\<rparr>)) s'"
      by (intro Suc.IH) (simp add: Let_def)
    then show ?thesis by (simp add: gate_frame_def drawn_def)
  next
    case False
    with Suc.prems show ?thesis by simp
  qed
qed

lemma reset_particle_frame:
  "reset_particle fuel s p bx by d = Inr s' \<Longrightarrow> gate_frame s s'"
  by (auto simp: reset_particle_def Let_def gate_frame_def drawn_def split: sum.splits
      dest!: reset_sample_frame)

lemma compute_next_impact_frame:
  "compute_next_impact fuel s p = Inr s' \<Longrightarrow> gate_frame s s'"
proof (induction fuel arbitrary: s)
  case 0
  then show ?case by simp
next
  case (Suc fuel)
  obtain nt na where sel: "select_impact s p 0 = (nt, na)"
    by (cases "select_impact s p 0")
  show ?case
  proof (cases "nt = max_path s")
    case True
    with Suc.prems sel obtain s2 where
      r: "reset_particle fuel (s\<lparr>reset_counter := reset_counter s + 1\<rparr>) p
            (circle_distance s / 2 + circle_radius s * 2) (circle_radius s)
            (if x_pos s ! p > 0 then RIGHT else LEFT) = Inr s2"
      and c: "compute_next_impact fuel s2 p = Inr s'"
      by (auto simp: Let_def split: sum.splits)
    from reset_particle_frame [OF r] Suc.IH [OF c] show ?thesis
      by (simp add: gate_frame_def)
  next
    case False
    with Suc.prems sel show ?thesis by (auto simp: gate_frame_def)
  qed
qed

lemma insert_index_frame: "insert_index s p = Inr s' \<Longrightarrow> gate_frame s s'"
  by (auto simp: insert_index_def gate_frame_def split: sum.splits if_splits)

lemma reindex_particle_frame: "reindex_particle s p w = Inr s' \<Longrightarrow> gate_frame s s'"
  by (auto simp: reindex_particle_def gate_frame_def split: list.splits if_splits
      dest!: insert_index_frame)

lemma get_retraction_angle_frame:
  "get_retraction_angle s p = (a, s') \<Longrightarrow> gate_frame s s'"
  by (auto simp: get_retraction_angle_def gate_frame_def drawn_def Let_def split: if_splits)

lemma explode_retract_frame:
  "explode_retract fuel s p = Inr s' \<Longrightarrow> gate_frame s s'"
proof (induction fuel arbitrary: s)
  case 0
  then show ?case by simp
next
  case (Suc fuel)
  obtain a s1 where g: "get_retraction_angle s p = (a, s1)"
    by (cases "get_retraction_angle s p")
  with Suc.prems obtain s2 where
    c: "compute_next_impact fuel (s1\<lparr>directions := (directions s1)[p := a]\<rparr>) p = Inr s2"
    and r: "(if \<not> is_in_domain s2 (next_x_pos s2 ! p) (next_y_pos s2 ! p)
             then explode_retract fuel s2 p else Inr s2) = Inr s'"
    by (auto split: sum.splits)
  have f1: "gate_frame s s2"
    using get_retraction_angle_frame [OF g] compute_next_impact_frame [OF c]
    by (simp add: gate_frame_def)
  show ?case
  proof (cases "\<not> is_in_domain s2 (next_x_pos s2 ! p) (next_y_pos s2 ! p)")
    case True
    with r have "explode_retract fuel s2 p = Inr s'" by simp
    from Suc.IH [OF this] f1 show ?thesis by (simp add: gate_frame_def)
  next
    case False
    with r f1 show ?thesis by simp
  qed
qed

lemma gate_shrink_refl [simp]: "gate_shrink s s"
  by (simp add: gate_shrink_def)

lemma gate_shrink_trans: "gate_shrink s s1 \<Longrightarrow> gate_shrink s1 s2 \<Longrightarrow> gate_shrink s s2"
  unfolding gate_shrink_def by (metis order_trans)

lemma gate_frame_shrink: "gate_frame s s' \<Longrightarrow> gate_shrink s s'"
  by (simp add: gate_frame_def gate_shrink_def)

lemma removeAll_update_shrink:
  "length ((xs[d := removeAll p (xs ! d)]) ! e) \<le> length (xs ! e)
   \<and> set ((xs[d := removeAll p (xs ! d)]) ! e) \<subseteq> set (xs ! e)"
proof (cases "e = d \<and> d < length xs")
  case True
  then show ?thesis
    by auto
next
  case False
  then have "(xs[d := removeAll p (xs ! d)]) ! e = xs ! e"
    by (cases "d < length xs") (auto simp: nth_list_update list_update_beyond)
  then show ?thesis by simp
qed

lemma erase_shrink:
  "gate_shrink s (s\<lparr>gate_contents := (gate_contents s)[d := removeAll p (gate_contents s ! d)]\<rparr>)"
  by (simp add: gate_shrink_def removeAll_update_shrink)

lemma explode_residents_shrink:
  "explode_residents fuel s buf slots d = Inr s' \<Longrightarrow> gate_shrink s s'"
proof (induction slots arbitrary: s buf)
  case Nil
  then show ?case by simp
next
  case (Cons i slots)
  let ?p = "buf ! i"
  from Cons.prems obtain x y where pos: "get_current_position s ?p = Inr (x, y)"
    by (auto simp: Let_def split: sum.splits)
  define s1 where "s1 = (if \<not> is_in_domain s x y then s
      else if \<not> is_in_gate s x y d
      then s\<lparr>gate_contents := (gate_contents s)[d := removeAll ?p (gate_contents s ! d)]\<rparr>
      else s)"
  define buf1 where "buf1 = (if \<not> is_in_domain s x y then buf
      else if \<not> is_in_gate s x y d
      then removeAll ?p (gate_contents s ! d) @ drop (length (removeAll ?p (gate_contents s ! d))) buf
      else buf)"
  define s3 where "s3 = s1\<lparr>x_pos := (x_pos s1)[?p := x], y_pos := (y_pos s1)[?p := y]\<rparr>"
  obtain a s4 where g: "get_retraction_angle s3 ?p = (a, s4)"
    by (cases "get_retraction_angle s3 ?p")
  define s6 where "s6 = s4\<lparr>directions := (directions s4)[?p := a],
      impact_times := (impact_times s4)[?p := time s4]\<rparr>"
  from Cons.prems pos g obtain s7 s8 where
    c: "compute_next_impact fuel s6 ?p = Inr s7"
    and r: "reindex_particle s7 ?p False = Inr s8"
    and rec: "explode_residents fuel s8 buf1 slots d = Inr s'"
    unfolding s6_def s3_def s1_def buf1_def
    by (auto simp: Let_def split: sum.splits if_splits)
  have "gate_shrink s s1"
    unfolding s1_def using erase_shrink by simp
  moreover have "gate_shrink s1 s6"
    using get_retraction_angle_frame [OF g]
    unfolding s6_def s3_def by (simp add: gate_frame_def gate_shrink_def)
  moreover have "gate_shrink s6 s8"
    using compute_next_impact_frame [OF c] reindex_particle_frame [OF r]
    by (simp add: gate_frame_def gate_shrink_def)
  moreover have "gate_shrink s8 s'"
    using Cons.IH [OF rec] .
  ultimately show ?case
    by (blast intro: gate_shrink_trans)
qed

lemma explode_gate_shrink:
  "explode_gate fuel s p d = Inr s' \<Longrightarrow> gate_shrink s s'"
  by (auto simp: explode_gate_def split: sum.splits
      dest!: explode_retract_frame explode_residents_shrink
      intro: gate_shrink_trans gate_frame_shrink)

lemma gate_shrink_within:
  "gate_shrink s s' \<Longrightarrow> within_capacity s d \<Longrightarrow> within_capacity s' d"
  unfolding gate_shrink_def within_capacity_def
  by (metis of_nat_le_iff order_trans)

lemma gate_frame_within:
  "gate_frame s s' \<Longrightarrow> within_capacity s d \<Longrightarrow> within_capacity s' d"
  by (simp add: gate_frame_def within_capacity_def)

lemma admission_appends_below_capacity:
  assumes "check_gate_admission fuel s p d = Inr s'"
    and "length (gate_contents s ! d) < length (gate_contents s' ! d)"
  shows "real (length (gate_contents s ! d)) < gate_capacities s ! d"
proof (cases "gate_arrays s ! d ! p = 0 \<and> real (length (gate_contents s ! d)) > gate_capacities s ! d - 1")
  case True
  with assms(1) have "explode_gate fuel s p d = Inr s'"
    by (simp add: check_gate_admission_def)
  from explode_gate_shrink [OF this] assms(2) show ?thesis
    by (auto simp: gate_shrink_def dest: spec [of _ d])
next
  case False
  show ?thesis
  proof (cases "gate_arrays s ! d ! p = 0")
    case True
    with False show ?thesis by simp
  next
    case False
    with assms show ?thesis by (simp add: check_gate_admission_def)
  qed
qed

lemma check_gate_admission_keeps:
  assumes "check_gate_admission fuel s p d0 = Inr s'"
  shows "gate_capacities s' = gate_capacities s \<and> (within_capacity s d \<longrightarrow> within_capacity s' d)"
proof (cases "gate_arrays s ! d0 ! p = 0")
  case False
  with assms show ?thesis by (simp add: check_gate_admission_def)
next
  case True
  show ?thesis
  proof (cases "real (length (gate_contents s ! d0)) > gate_capacities s ! d0 - 1")
    case True
    with \<open>gate_arrays s ! d0 ! p = 0\<close> assms have "explode_gate fuel s p d0 = Inr s'"
      by (simp add: check_gate_admission_def)
    from explode_gate_shrink [OF this] show ?thesis
      using gate_shrink_within by (auto simp: gate_shrink_def)
  next
    case False
    with \<open>gate_arrays s ! d0 ! p = 0\<close> assms
    have s': "s' = s\<lparr>gate_contents := (gate_contents s)[d0 := gate_contents s ! d0 @ [p]],
                     gate_arrays := (gate_arrays s)[d0 := (gate_arrays s ! d0)[p := 1]]\<rparr>"
      by (simp add: check_gate_admission_def)
    show ?thesis
    proof (cases "d = d0 \<and> d0 < length (gate_contents s)")
      case True
      with False show ?thesis
        by (simp add: s' within_capacity_def)
    next
      case False
      then have "(gate_contents s)[d0 := gate_contents s ! d0 @ [p]] ! d = gate_contents s ! d"
        by (cases "d0 < length (gate_contents s)") (auto simp: nth_list_update list_update_beyond)
      then show ?thesis
        by (simp add: s' within_capacity_def)
    qed
  qed
qed

lemma check_gate_departure_shrink: "gate_capacities (check_gate_departure s p d0) = gate_capacities s
  \<and> (within_capacity s d \<longrightarrow> within_capacity (check_gate_departure s p d0) d)"
proof -
  have "length ((gate_contents s)[d0 := removeAll p (gate_contents s ! d0)] ! d)
      \<le> length (gate_contents s ! d)"
    by (simp add: removeAll_update_shrink)
  then show ?thesis
    by (auto simp: check_gate_departure_def within_capacity_def)
qed

lemma update_gate_keeps:
  assumes "update_gate fuel s p d0 = Inr s'"
  shows "gate_capacities s' = gate_capacities s \<and> (within_capacity s d \<longrightarrow> within_capacity s' d)"
  using assms check_gate_admission_keeps [of fuel s p d0 s' d] check_gate_departure_shrink [of s p d0 d]
  by (auto simp: update_gate_def split: if_splits)

lemma update_select_gates: "gate_frame s (update_select s write_dt p)"
  by (simp add: gate_frame_def update_select_def update_commit_def update_count_def
      update_repair_def Let_def)

lemma update_finish_keeps:
  assumes "update_finish fuel s4 p = Inr s'"
  shows "gate_capacities s' = gate_capacities s4 \<and> (within_capacity s4 d \<longrightarrow> within_capacity s' d)"
proof -
  from assms obtain s5 where g0: "update_gate fuel s4 p LEFT = Inr s5"
    by (cases "update_gate fuel s4 p LEFT") (auto simp: update_finish_def)
  with assms obtain s6 where g1: "update_gate fuel s5 p RIGHT = Inr s6"
    by (cases "update_gate fuel s5 p RIGHT") (auto simp: update_finish_def)
  with assms g0 obtain s7 where c: "compute_next_impact fuel s6 p = Inr s7"
    by (cases "compute_next_impact fuel s6 p") (auto simp: update_finish_def)
  with assms g0 g1 obtain s8 where r: "reindex_particle s7 p True = Inr s8"
    by (cases "reindex_particle s7 p True") (auto simp: update_finish_def)
  with assms g0 g1 c have m: "s' = measure_step s8"
    by (simp add: update_finish_def)
  have f8: "gate_frame s6 s'"
    using compute_next_impact_frame [OF c] reindex_particle_frame [OF r]
    by (simp add: m gate_frame_def measure_step_def)
  show ?thesis
    using f8 update_gate_keeps [OF g0, of d] update_gate_keeps [OF g1, of d]
    by (auto simp: gate_frame_def within_capacity_def)
qed

lemma update_keeps:
  assumes "update fuel s write_dt = Inr s'"
  shows "gate_capacities s' = gate_capacities s \<and> (within_capacity s d \<longrightarrow> within_capacity s' d)"
proof -
  from assms obtain p rest where si: "sorted_indices s = p # rest"
    by (cases "sorted_indices s") (auto simp: update_def)
  with assms have "update_finish fuel (update_select s write_dt p) p = Inr s'"
    by (simp add: update_def)
  from update_finish_keeps [OF this, of d] update_select_gates [of s write_dt p]
  show ?thesis
    by (auto simp: gate_frame_def within_capacity_def)
qed

lemma start_particles_frame:
  "start_particles fuel s bx by side ps = Inr s' \<Longrightarrow> gate_frame s s'"
proof (induction ps arbitrary: s)
  case Nil
  then show ?case by simp
next
  case (Cons p ps)
  from Cons.prems obtain s1 s2 where
    r: "reset_particle fuel s p bx by side = Inr s1"
    and c: "compute_next_impact fuel s1 p = Inr s2"
    and rec: "start_particles fuel (if side = LEFT then s2\<lparr>in_left := in_left s2 + 1\<rparr> else s2)
                bx by side ps = Inr s'"
    by (auto split: sum.splits)
  from reset_particle_frame [OF r] compute_next_impact_frame [OF c] Cons.IH [OF rec]
  show ?case by (auto simp: gate_frame_def split: if_splits)
qed

lemma start_frame:
  assumes "start fuel s left_ratio = Inr s'"
  shows "gate_frame s s'"
proof -
  from assms obtain s2 s3 n where
    a: "start_particles fuel (s\<lparr>time := 0, last_written_time := 0, in_left := 0\<rparr>)
          (circle_distance s / 2 + circle_radius s * 2) (circle_radius s) LEFT [0..<n] = Inr s2"
    and b: "start_particles fuel s2 (circle_distance s / 2 + circle_radius s * 2) (circle_radius s)
          RIGHT [n..<nat (num_particles s2)] = Inr s3"
    and c: "s' = measure_step (sort_indices s3)"
    by (auto simp: start_def Let_def split: if_splits sum.splits)
  from start_particles_frame [OF a] start_particles_frame [OF b] show ?thesis
    by (simp add: c gate_frame_def measure_step_def sort_indices_def)
qed

lemma couple_bridge_gates:
  "gate_contents (couple_bridge s) = gate_contents s"
  "gate_capacities (couple_bridge s) = gate_capacities s"
  by (simp_all add: couple_bridge_def Let_def)

lemma setup_gates:
  assumes "constructed s0"
  shows "gate_contents (setup_sim s0) = [[], []]
    \<and> gate_capacities (setup_sim s0) = [of_int (left_gate_capacity s0), of_int (right_gate_capacity s0)]"
  using assms by (simp add: constructed_def setup_sim_def couple_bridge_gates Let_def)

section \<open>Flights along the axis of the example dumbbell\<close>

lemma EPS_bounds: "0 < EPS" "EPS < 1 / 1000"
  by (simp_all add: EPS_def)

lemma sqrt_3136_25: "sqrt (3136 / 25) = 56 / 5"
  by (simp add: real_sqrt_divide)

lemma bridge_horizontal:
  assumes "sin (directions s ! p) = 0"
  shows "time_to_hit_bridge s p n = (max_path s, n)"
  using assms by (simp add: time_to_hit_bridge_def)

lemma circle_right_moving:
  assumes "demo_geom s" "y_pos s ! p = 0" "directions s ! p = 0"
  shows "circle_intersections s p c t12 = ((c - 5 - x_pos s ! p) / 28, (c + 5 - x_pos s ! p) / 28)"
proof -
  let ?x = "x_pos s ! p"
  have D: "2 * ((?x - c) / 5) * (28 / 5) * (2 * ((?x - c) / 5) * (28 / 5))
        - 4 * (28 / 5 * (28 / 5)) * ((?x - c) / 5 * ((?x - c) / 5) - 1) = (56 / 5)\<^sup>2"
    by (simp add: power2_eq_square field_simps)
  show ?thesis
    using assms unfolding circle_intersections_def demo_geom_def Let_def
    by (simp add: D sqrt_3136_25 field_simps)
qed

lemma circle_left_moving:
  assumes "demo_geom s" "y_pos s ! p = 0" "directions s ! p = pi"
  shows "circle_intersections s p c t12 = ((x_pos s ! p - c - 5) / 28, (x_pos s ! p - c + 5) / 28)"
proof -
  let ?x = "x_pos s ! p"
  have D: "2 * ((?x - c) / 5) * (- (28 / 5)) * (2 * ((?x - c) / 5) * (- (28 / 5)))
        - 4 * ((28 / 5) * (28 / 5)) * ((?x - c) / 5 * ((?x - c) / 5) - 1) = (56 / 5)\<^sup>2"
    by (simp add: power2_eq_square field_simps)
  show ?thesis
    using assms unfolding circle_intersections_def demo_geom_def Let_def
    by (simp add: D sqrt_3136_25 field_simps)
qed

lemma atan2_axis: "atan2 0 5 = 0" "atan2 0 (- 5) = pi"
  by (simp_all add: atan2_def)

lemma fmod_reflect: "get_reflection_angle 0 pi = pi" "get_reflection_angle pi 0 = 0"
proof -
  have "3 * pi / (2 * pi) = 3 / 2" by simp
  then have "trunc_real ((2 * pi - 0 + PI) / (2 * PI)) = 1"
    by (simp add: PI_def trunc_real_def)
  then show "get_reflection_angle 0 pi = pi"
    by (simp add: get_reflection_angle_def fmod_def PI_def)
  show "get_reflection_angle pi 0 = 0"
    by (simp add: get_reflection_angle_def fmod_def PI_def trunc_real_def)
qed

lemma left_circle_right_moving:
  assumes "demo_geom s" "y_pos s ! p = 0" "directions s ! p = 0" "- 11 \<le> x_pos s ! p"
  shows "time_to_hit_circle s p (- 6) n = (28, n)"
  using assms EPS_bounds
  by (simp add: time_to_hit_circle_def circle_right_moving [OF assms(1-3)] is_in_bridge_def
      demo_geom_def field_simps)

lemma right_circle_right_moving:
  assumes "demo_geom s" "y_pos s ! p = 0" "directions s ! p = 0" "- 17 < x_pos s ! p"
    "x_pos s ! p < 11 - 28 * EPS"
  shows "time_to_hit_circle s p 6 n = (11 - x_pos s ! p - 28 * EPS, pi)"
  using assms EPS_bounds
  by (simp add: time_to_hit_circle_def circle_right_moving [OF assms(1-3)] is_in_bridge_def
      demo_geom_def atan2_axis field_simps)

lemma gate_right_moving:
  assumes "demo_geom s" "directions s ! p = 0" "- 30 < x_pos s ! p"
  shows "time_to_hit_gate s p =
     (if x_pos s ! p < - 2 then - 2 - x_pos s ! p
      else if x_pos s ! p < 2 then 2 - x_pos s ! p else 28)"
  using assms by (simp add: time_to_hit_gate_def demo_geom_def Let_def)

lemma middle_right_moving:
  assumes "demo_geom s" "y_pos s ! p = 0" "directions s ! p = 0" "- 28 < x_pos s ! p"
  shows "time_to_hit_middle s p =
     (if x_pos s ! p < - 28 * EPS then - x_pos s ! p + 28 * EPS else 28)"
  using assms by (simp add: time_to_hit_middle_def demo_geom_def Let_def field_simps)

lemma left_circle_left_moving:
  assumes "demo_geom s" "y_pos s ! p = 0" "directions s ! p = pi" "- 11 + 28 * EPS < x_pos s ! p"
    "x_pos s ! p < 17"
  shows "time_to_hit_circle s p (- 6) n = (x_pos s ! p + 11 - 28 * EPS, 0)"
  using assms EPS_bounds
  by (simp add: time_to_hit_circle_def circle_left_moving [OF assms(1-3)] is_in_bridge_def
      demo_geom_def atan2_axis field_simps)

lemma right_circle_left_moving:
  assumes "demo_geom s" "y_pos s ! p = 0" "directions s ! p = pi" "x_pos s ! p \<le> 11"
  shows "time_to_hit_circle s p 6 n = (28, n)"
  using assms EPS_bounds
  by (simp add: time_to_hit_circle_def circle_left_moving [OF assms(1-3)] is_in_bridge_def
      demo_geom_def field_simps)

lemma gate_left_moving:
  assumes "demo_geom s" "directions s ! p = pi" "x_pos s ! p < 30"
  shows "time_to_hit_gate s p =
     (if 2 < x_pos s ! p then x_pos s ! p - 2
      else if - 2 < x_pos s ! p then x_pos s ! p + 2 else 28)"
  using assms by (simp add: time_to_hit_gate_def demo_geom_def Let_def)

lemma middle_left_moving:
  assumes "demo_geom s" "y_pos s ! p = 0" "directions s ! p = pi" "x_pos s ! p < 28"
  shows "time_to_hit_middle s p =
     (if 28 * EPS < x_pos s ! p then x_pos s ! p + 28 * EPS else 28)"
  using assms by (simp add: time_to_hit_middle_def demo_geom_def Let_def field_simps)

lemma select_right_moving:
  assumes "demo_geom s" "y_pos s ! p = 0" "directions s ! p = 0" "- 11 \<le> x_pos s ! p"
    "x_pos s ! p < 11 - 28 * EPS"
  shows "select_impact s p a =
     (if x_pos s ! p < - 2 then (- 2 - x_pos s ! p + EPS, 0)
      else if x_pos s ! p < - 28 * EPS then (- x_pos s ! p + 29 * EPS, 0)
      else if x_pos s ! p < 2 then (2 - x_pos s ! p + EPS, 0)
      else (11 - x_pos s ! p - 28 * EPS, pi))"
proof -
  have b: "time_to_hit_bridge s p a = (28, a)"
    using bridge_horizontal [of s p a] assms by (simp add: demo_geom_def)
  have l: "time_to_hit_circle s p (left_center_x s) n = (28, n)" for n
    using left_circle_right_moving [OF assms(1-4)] assms(1) by (simp add: demo_geom_def)
  have r: "time_to_hit_circle s p (right_center_x s) n = (11 - x_pos s ! p - 28 * EPS, pi)" for n
    using right_circle_right_moving [OF assms(1-3) _ assms(5)] assms(1,4) by (simp add: demo_geom_def)
  have g: "time_to_hit_gate s p =
     (if x_pos s ! p < - 2 then - 2 - x_pos s ! p
      else if x_pos s ! p < 2 then 2 - x_pos s ! p else 28)"
    using gate_right_moving [OF assms(1,3)] assms(4) by simp
  have m: "time_to_hit_middle s p =
     (if x_pos s ! p < - 28 * EPS then - x_pos s ! p + 28 * EPS else 28)"
    using middle_right_moving [OF assms(1-3)] assms(4) by simp
  have mp: "max_path s = 28"
    using assms(1) by (simp add: demo_geom_def)
  show ?thesis
    using assms(3-5) EPS_bounds
    by (simp add: select_impact_def b l r g m mp Let_def fmod_reflect)
qed

lemma select_left_moving:
  assumes "demo_geom s" "y_pos s ! p = 0" "directions s ! p = pi" "- 11 + 28 * EPS < x_pos s ! p"
    "x_pos s ! p \<le> 11"
  shows "select_impact s p a =
     (if 2 < x_pos s ! p then (x_pos s ! p - 2 + EPS, pi)
      else if 28 * EPS < x_pos s ! p then (x_pos s ! p + 29 * EPS, pi)
      else if - 2 < x_pos s ! p then (x_pos s ! p + 2 + EPS, pi)
      else (x_pos s ! p + 11 - 28 * EPS, 0))"
proof -
  have b: "time_to_hit_bridge s p a = (28, a)"
    using bridge_horizontal [of s p a] assms by (simp add: demo_geom_def)
  have l: "time_to_hit_circle s p (left_center_x s) n = (x_pos s ! p + 11 - 28 * EPS, 0)" for n
    using left_circle_left_moving [OF assms(1-4)] assms(1,5) by (simp add: demo_geom_def)
  have r: "time_to_hit_circle s p (right_center_x s) n = (28, n)" for n
    using right_circle_left_moving [OF assms(1-3) assms(5)] assms(1) by (simp add: demo_geom_def)
  have g: "time_to_hit_gate s p =
     (if 2 < x_pos s ! p then x_pos s ! p - 2
      else if - 2 < x_pos s ! p then x_pos s ! p + 2 else 28)"
    using gate_left_moving [OF assms(1,3)] assms(5) by simp
  have m: "time_to_hit_middle s p =
     (if 28 * EPS < x_pos s ! p then x_pos s ! p + 28 * EPS else 28)"
    using middle_left_moving [OF assms(1-3)] assms(5) by simp
  have mp: "max_path s = 28"
    using assms(1) by (simp add: demo_geom_def)
  show ?thesis
    using assms(3-5) EPS_bounds
    by (simp add: select_impact_def b l r g m mp Let_def fmod_reflect)
qed

lemma compute_next_impact_plan:
  assumes "select_impact s p 0 = (next_time, next_angle)" "next_time \<noteq> max_path s"
  shows "compute_next_impact (Suc fuel) s p =
     Inr (s\<lparr>next_x_pos := (next_x_pos s)[p := x_pos s ! p + next_time * cos (directions s ! p)],
            next_y_pos := (next_y_pos s)[p := y_pos s ! p + next_time * sin (directions s ! p)],
            next_impact_times := (next_impact_times s)[p := time s + next_time],
            next_directions := (next_directions s)[p := next_angle]\<rparr>)"
  using assms by simp

lemma nat_one_lists [simp]: "replicate (nat 1) x = [x]" "[0..<nat (trunc_real 1)] = [0]"
  by (simp_all add: trunc_real_def)

lemmas axis_eval = select_right_moving select_left_moving demo_geom_def EPS_def

lemma setup_lone: "setup_sim lone_config = (demo_sim 1)\<lparr>rng_draws := demo_rng\<rparr>"
  by (simp add: lone_config_def demo_sim_def setup_sim_def new_simulation_def blank_sim_def
      couple_bridge_def Let_def)

lemma lone_start: "start (Suc (Suc 0)) (setup_sim lone_config) 1 = Inr lone_started"
  unfolding setup_lone
  by (simp add: start_def Let_def lone_started_def demo_sim_eq sort_indices_def
      measure_step_def reset_particle_def is_in_circle_def is_in_gate_def is_in_bridge_def
      draw_def drawn_def demo_rng_def trunc_real_def axis_eval)

lemma lone_update: "update (Suc 0) lone_started 0 = Inr lone_in_gate"
  by (simp add: update_def update_select_def update_finish_def update_repair_def update_count_def
      update_commit_def update_gate_def check_gate_admission_def check_gate_departure_def
      is_in_domain_def is_in_bridge_def is_in_circle_def is_in_gate_def is_going_in_def
      reindex_particle_def insert_index_def measure_step_def Let_def
      lone_started_def lone_in_gate_def demo_sim_eq axis_eval)

section \<open>Gate occupancy\<close>

text \<open>
  Claim C1. In every state of a run (after \<open>start\<close> and after every \<open>update\<close>), each of
  the two gates whose capacity is not negative holds at most as many particles as its
  capacity. The proof rests on \<open>admission_appends_below_capacity\<close> (an admission that
  lengthens the list found it strictly below the capacity) and \<open>explode_gate_shrink\<close>
  (an explosion only takes elements out).
\<close>

theorem gate_contents_within_capacity:
  assumes "reachable s" and "d < 2" and "0 \<le> gate_capacities s ! d"
  shows "real (length (gate_contents s ! d)) \<le> gate_capacities s ! d"
  using assms
proof (induction rule: reachable.induct)
  case (started s0 fuel left_ratio s)
  from start_frame [OF started.hyps(2)] setup_gates [OF started.hyps(1)]
  have "gate_contents s = [[], []]"
    by (simp add: gate_frame_def)
  with started.prems show ?case
    by (cases d) (auto simp: less_Suc_eq)
next
  case (updated s fuel write_dt s')
  from update_keeps [OF updated.hyps(2), of d]
  have caps: "gate_capacities s' = gate_capacities s"
    and keep: "within_capacity s d \<longrightarrow> within_capacity s' d"
    by simp_all
  from updated.prems caps have "0 \<le> gate_capacities s ! d"
    by simp
  with updated.IH updated.prems have "within_capacity s d"
    by (simp add: within_capacity_def)
  with keep show ?case
    by (simp add: within_capacity_def)
qed

theorem gate_contents_within_capacity_witness:
  "reachable lone_in_gate \<and> 0 \<le> gate_capacities lone_in_gate ! LEFT
   \<and> gate_contents lone_in_gate ! LEFT = [0]
   \<and> real (length (gate_contents lone_in_gate ! LEFT)) \<le> gate_capacities lone_in_gate ! LEFT"
proof -
  have "constructed lone_config"
    by (simp add: constructed_def lone_config_def new_simulation_def)
  from reachable.started [OF this lone_start] have "reachable lone_started" .
  from reachable.updated [OF this lone_update] have r: "reachable lone_in_gate" .
  have c: "0 \<le> gate_capacities lone_in_gate ! LEFT" "gate_contents lone_in_gate ! LEFT = [0]"
    by (simp_all add: lone_in_gate_def lone_started_def demo_sim_eq)
  from gate_contents_within_capacity [OF r _ c(1)] r c show ?thesis
    by simp
qed

section \<open>Membership flags after an explosion\<close>

lemma small_lists [simp]:
  "replicate 2 x = [x, x]" "replicate 3 x = [x, x, x]"
  "[0..<2] = [0, 1]" "[0..<3] = [0, 1, 2]" "[2..<2] = []" "[2..<3] = [2]" "[3..<3] = []"
  by (simp_all add: eval_nat_numeral upt_rec)

lemma setup_pair: "setup_sim pair_config = (demo_sim 2)\<lparr>rng_draws := pair_rng\<rparr>"
  by (simp add: pair_config_def demo_sim_def setup_sim_def new_simulation_def blank_sim_def
      couple_bridge_def Let_def)

lemmas run_eval =
  update_def update_select_def update_finish_def update_repair_def update_count_def
  update_commit_def update_gate_def check_gate_admission_def check_gate_departure_def
  explode_gate_def get_current_position_def get_retraction_angle_def
  is_in_domain_def is_in_bridge_def is_in_circle_def is_in_gate_def is_going_in_def
  reindex_particle_def insert_index_def measure_step_def Let_def demo_sim_eq axis_eval PI_def

lemma pair_start: "start (Suc (Suc 0)) (setup_sim pair_config) 1 = Inr pair_started"
  unfolding setup_pair
  by (simp add: start_def Let_def pair_started_def demo_sim_eq sort_indices_def
      measure_step_def reset_particle_def is_in_circle_def is_in_gate_def is_in_bridge_def
      draw_def drawn_def pair_rng_def trunc_real_def axis_eval)

lemma pair_update1: "update (Suc 0) pair_started 0 = Inr pair_admitted"
  by (simp add: run_eval pair_started_def pair_admitted_def)

lemma pair_update2: "update (Suc (Suc 0)) pair_admitted 0 = Inr pair_exploded"
  by (simp add: run_eval pair_started_def pair_admitted_def pair_exploded_def)

text \<open>
  Claim C2. The claim fails in the run of two particles: when particle 1 sets off the
  explosion of the left gate, the resident particle 0 is at \<open>(EPS, 0)\<close>, in the domain
  and past the mid-line, hence no longer in the left gate. \<open>explode_gate\<close> takes it out of
  \<open>gate_contents\<close> and leaves its flag in \<open>gate_arrays\<close> at 1 (it never writes
  \<open>gate_arrays\<close>: lemma \<open>explode_gate_shrink\<close>), so after this \<open>update\<close> the flag is set for
  a particle that is not in the list.
\<close>

theorem explosion_keeps_flag_of_removed_resident:
  "reachable pair_admitted
   \<and> gate_contents pair_admitted ! LEFT = [0] \<and> gate_arrays pair_admitted ! LEFT ! 0 = 1
   \<and> update (Suc (Suc 0)) pair_admitted 0 = Inr pair_exploded
   \<and> gate_arrays pair_exploded ! LEFT ! 0 = 1
   \<and> 0 \<notin> set (gate_contents pair_exploded ! LEFT)"
proof -
  have "constructed pair_config"
    by (simp add: constructed_def pair_config_def new_simulation_def)
  from reachable.started [OF this pair_start] have "reachable pair_started" .
  from reachable.updated [OF this pair_update1] have "reachable pair_admitted" .
  then show ?thesis
    by (simp add: pair_update2) (simp add: pair_exploded_def pair_admitted_def)
qed

section \<open>The order of events\<close>

lemma setup_trio: "setup_sim trio_config = (demo_sim 3)\<lparr>rng_draws := trio_rng\<rparr>"
  by (simp add: trio_config_def demo_sim_def setup_sim_def new_simulation_def blank_sim_def
      couple_bridge_def Let_def)

lemma trio_start: "start (Suc (Suc 0)) (setup_sim trio_config) (2 / 3) = Inr trio_started"
  unfolding setup_trio
  by (simp add: start_def Let_def trio_started_def demo_sim_eq sort_indices_def
      measure_step_def reset_particle_def is_in_circle_def is_in_gate_def is_in_bridge_def
      draw_def drawn_def trio_rng_def trunc_real_def axis_eval PI_def)

lemma trio_update1: "update (Suc 0) trio_started 0 = Inr trio_admitted"
  by (simp add: run_eval trio_started_def trio_admitted_def)

lemma trio_update2: "update (Suc (Suc 0)) trio_admitted 0 = Inr trio_exploded"
  by (simp add: run_eval trio_started_def trio_admitted_def trio_exploded_def)

lemma trio_update3: "update (Suc 0) trio_exploded 0 = Inr trio_left_gate"
  by (simp add: run_eval trio_started_def trio_admitted_def trio_exploded_def trio_left_gate_def)

lemma trio_update4: "update (Suc 0) trio_left_gate 0 = Inr trio_late"
  by (simp add: run_eval trio_started_def trio_admitted_def trio_exploded_def trio_left_gate_def
      trio_late_def)

lemma trio_update5: "update (Suc 0) trio_late 0 = Inr trio_back"
  by (simp add: run_eval trio_started_def trio_admitted_def trio_exploded_def trio_left_gate_def
      trio_late_def trio_back_def)

text \<open>
  Claim C5. The claim fails in the run of three particles. Particle 0 enters the left
  gate at \<open>1 + EPS\<close>; particle 1 arrives at the same time and sets off the explosion.
  \<open>explode_gate\<close> replans particle 1 while it is still the front of \<open>sorted_indices\<close>, and
  \<open>insert_index\<close> puts the retracted resident 0, which has the same new time, before it;
  \<open>reindex_particle\<close> with \<open>was_minimum\<close> then pops particle 0 and inserts particle 1 a
  second time (\<open>trio_exploded\<close>). Two updates later the front of the index is a stale
  entry of particle 1 with time \<open>10 - 26 EPS\<close>, although particle 2 is due at
  \<open>5 - 28 EPS\<close>: \<open>update\<close> sets the time to \<open>10 - 26 EPS\<close> (\<open>trio_late\<close>), and the next
  \<open>update\<close> sets it back to \<open>5 - 28 EPS\<close> (\<open>trio_back\<close>).
\<close>

theorem time_decreases_after_simultaneous_arrival:
  "reachable trio_late \<and> update (Suc 0) trio_late 0 = Inr trio_back
   \<and> time trio_back < time trio_late
   \<and> 0 \<notin> set (sorted_indices trio_exploded)
   \<and> sorted_indices trio_left_gate = [1, 2, 1]
   \<and> next_impact_times trio_left_gate ! 2 < next_impact_times trio_left_gate ! 1"
proof -
  have "constructed trio_config"
    by (simp add: constructed_def trio_config_def new_simulation_def)
  from reachable.started [OF this trio_start] have "reachable trio_started" .
  from reachable.updated [OF this trio_update1] have "reachable trio_admitted" .
  from reachable.updated [OF this trio_update2] have "reachable trio_exploded" .
  from reachable.updated [OF this trio_update3] have "reachable trio_left_gate" .
  from reachable.updated [OF this trio_update4] have "reachable trio_late" .
  then show ?thesis
    by (simp add: trio_update5)
       (simp add: trio_back_def trio_late_def trio_left_gate_def trio_exploded_def EPS_def)
qed

section \<open>A particle dropped from the centre of the left reservoir\<close>

lemma couple_bridge_sel:
  "circle_radius (couple_bridge s) = circle_radius s"
  "bridge_height (couple_bridge s) = bridge_height s"
  "bridge_length (couple_bridge s) = circle_distance (couple_bridge s)
      - (2 * sqrt ((circle_radius s)\<^sup>2 - (bridge_height s)\<^sup>2 / 4) - 2 * circle_radius s)"
  by (simp_all add: couple_bridge_def Let_def)

lemma setup_coupled: "coupled (setup_sim s0)"
  by (simp add: coupled_def setup_sim_def Let_def couple_bridge_sel)

lemma drop_root:
  assumes "centre_drop s p"
  shows "0 < sqrt ((circle_radius s)\<^sup>2 - (bridge_height s)\<^sup>2 / 4)"
    and "sqrt ((circle_radius s)\<^sup>2 - (bridge_height s)\<^sup>2 / 4) \<le> circle_radius s"
proof -
  have "(bridge_height s)\<^sup>2 < (2 * circle_radius s)\<^sup>2"
    using assms unfolding centre_drop_def by (intro power_strict_mono) auto
  then show "0 < sqrt ((circle_radius s)\<^sup>2 - (bridge_height s)\<^sup>2 / 4)"
    by (simp add: power2_eq_square)
  have "sqrt ((circle_radius s)\<^sup>2 - (bridge_height s)\<^sup>2 / 4) \<le> sqrt ((circle_radius s)\<^sup>2)"
    by (intro real_sqrt_le_mono) simp
  then show "sqrt ((circle_radius s)\<^sup>2 - (bridge_height s)\<^sup>2 / 4) \<le> circle_radius s"
    using assms by (simp add: centre_drop_def)
qed

lemma drop_path:
  assumes "centre_drop s p"
  shows "0 < max_path s" and "circle_radius s < max_path s"
  using assms by (auto simp: centre_drop_def coupled_def)

lemma drop_bridge:
  assumes "centre_drop s p"
  shows "bridge_length s / 2 + left_center_x s
           = - sqrt ((circle_radius s)\<^sup>2 - (bridge_height s)\<^sup>2 / 4)"
    and "0 \<le> bridge_length s"
    and "bridge_length s / 2 < - left_center_x s"
proof -
  show e: "bridge_length s / 2 + left_center_x s
           = - sqrt ((circle_radius s)\<^sup>2 - (bridge_height s)\<^sup>2 / 4)"
    using assms by (simp add: centre_drop_def coupled_def field_simps)
  show "0 \<le> bridge_length s"
    using assms drop_root(2) [OF assms] by (simp add: centre_drop_def coupled_def)
  show "bridge_length s / 2 < - left_center_x s"
    using e drop_root(1) [OF assms] by linarith
qed

lemma drop_trig:
  assumes "centre_drop s p"
  shows "cos (directions s ! p) = 0" and "sin (directions s ! p) = - 1"
  using assms by (simp_all add: centre_drop_def PI_def)

lemma drop_misses_bridge:
  assumes "centre_drop s p"
  shows "time_to_hit_bridge s p n = (max_path s, n)"
proof (cases "bridge_length s = 0")
  case True
  then show ?thesis
    by (simp add: time_to_hit_bridge_def drop_trig [OF assms])
next
  case False
  with drop_bridge(2) [OF assms] have L: "0 < bridge_length s"
    by simp
  have mp: "0 < max_path s"
    by (rule drop_path(1) [OF assms])
  have px: "x_pos s ! p = left_center_x s" and py: "y_pos s ! p = 0"
    and h: "0 \<le> bridge_height s"
    using assms by (simp_all add: centre_drop_def)
  have "(bridge_length s / 2 + left_center_x s) / bridge_length s < 0"
    using drop_bridge(1) [OF assms] drop_root(1) [OF assms] L
    by (simp add: divide_neg_pos)
  then have u1: "\<not> 0 \<le> (bridge_length s / 2 + left_center_x s) / bridge_length s"
    by simp
  have "- (bridge_height s / (2 * max_path s)) \<le> 0"
    using mp h by simp
  then have t2: "\<not> EPS < - (bridge_height s / (2 * max_path s))"
    using EPS_def by simp
  have q1: "((- bridge_length s / 2 - left_center_x s) * (max_path s * - 1)
              - (- bridge_height s / 2 - 0) * (max_path s * 0))
            / (max_path s * 0 * 0 - max_path s * - 1 * bridge_length s)
          = (bridge_length s / 2 + left_center_x s) / bridge_length s"
    using mp L by (simp add: field_simps)
  have q2: "((- bridge_length s / 2 - left_center_x s) * 0
              - (bridge_height s / 2 - 0) * bridge_length s)
            / (max_path s * 0 * 0 - max_path s * - 1 * bridge_length s)
          = - (bridge_height s / (2 * max_path s))"
    using mp L by (simp add: field_simps)
  have d: "max_path s * 0 * 0 - max_path s * - 1 * bridge_length s \<noteq> 0"
    using mp L by simp
  show ?thesis
    unfolding time_to_hit_bridge_def Let_def px py drop_trig [OF assms]
    unfolding q1 q2 using d u1 t2 by simp
qed

lemma drop_left_roots:
  assumes "centre_drop s p"
  shows "circle_intersections s p (left_center_x s) t12
           = (- (circle_radius s / max_path s), circle_radius s / max_path s)"
proof -
  have mp: "0 < max_path s" and R: "0 < circle_radius s"
    using drop_path(1) [OF assms] assms by (simp_all add: centre_drop_def)
  have px: "x_pos s ! p = left_center_x s" and py: "y_pos s ! p = 0"
    using assms by (simp_all add: centre_drop_def)
  define k where "k = max_path s / circle_radius s"
  have k: "0 < k"
    using mp R by (simp add: k_def)
  have root: "sqrt (4 * (k * k)) = 2 * k"
    using k by (simp add: real_sqrt_mult)
  have "circle_intersections s p (left_center_x s) t12
          = ((- 0 - sqrt (4 * (k * k))) / (2 * (k * k)), (- 0 + sqrt (4 * (k * k))) / (2 * (k * k)))"
    unfolding circle_intersections_def Let_def px py drop_trig [OF assms]
    using k by (simp add: k_def)
  also have "\<dots> = (- (1 / k), 1 / k)"
    unfolding root using k by (simp add: field_simps)
  finally show ?thesis
    using mp R by (simp add: k_def)
qed

lemma drop_right_roots:
  assumes "centre_drop s p"
  shows "circle_intersections s p (right_center_x s) t12 = t12"
proof -
  have mp: "0 < max_path s" and R: "0 < circle_radius s" and D: "0 \<le> circle_distance s"
    using drop_path(1) [OF assms] assms by (simp_all add: centre_drop_def)
  have px: "x_pos s ! p = left_center_x s" and py: "y_pos s ! p = 0"
    using assms by (simp_all add: centre_drop_def)
  have gap: "left_center_x s - right_center_x s = - (circle_distance s + 2 * circle_radius s)"
    using assms by (simp add: centre_drop_def coupled_def)
  define a where "a = max_path s * 0 / circle_radius s * (max_path s * 0 / circle_radius s)
      + max_path s * - 1 / circle_radius s * (max_path s * - 1 / circle_radius s)"
  define b where "b = 2 * ((left_center_x s - right_center_x s) / circle_radius s)
        * (max_path s * 0 / circle_radius s)
      + 2 * ((0 - 0) / circle_radius s) * (max_path s * - 1 / circle_radius s)"
  define c where "c = (left_center_x s - right_center_x s) / circle_radius s
        * ((left_center_x s - right_center_x s) / circle_radius s)
      + (0 - 0) / circle_radius s * ((0 - 0) / circle_radius s) - 1"
  have unfold: "circle_intersections s p (right_center_x s) t12
      = (if b * b - 4 * a * c \<ge> 0
         then ((- b - sqrt (b * b - 4 * a * c)) / (2 * a), (- b + sqrt (b * b - 4 * a * c)) / (2 * a))
         else t12)"
    unfolding circle_intersections_def Let_def px py drop_trig [OF assms] a_def b_def c_def ..
  have a: "0 < a"
    using mp R by (simp add: a_def)
  have b: "b = 0"
    by (simp add: b_def)
  define q where "q = (circle_distance s + 2 * circle_radius s) / circle_radius s"
  have "1 < q"
    using R D by (simp add: q_def field_simps)
  then have "1 < q * q"
    by (metis less_1_mult)
  moreover have "c = q * q - 1"
    using R by (simp add: c_def gap q_def field_simps)
  ultimately have c: "0 < c"
    by simp
  have "0 < 4 * a * c"
    using a c by simp
  then have "\<not> b * b - 4 * a * c \<ge> 0"
    unfolding b by simp
  then show ?thesis
    unfolding unfold by simp
qed

lemma drop_ratio:
  assumes "centre_drop s p"
  shows "\<not> EPS < - (circle_radius s / max_path s)"
    and "EPS < circle_radius s / max_path s"
    and "circle_radius s / max_path s < 1"
    and "circle_radius s / max_path s * (max_path s * - 1) = - circle_radius s"
proof -
  have mp: "0 < max_path s" and R: "0 < circle_radius s" and Rmp: "circle_radius s < max_path s"
    and e: "EPS * max_path s < circle_radius s"
    using drop_path [OF assms] assms by (simp_all add: centre_drop_def)
  have "0 < circle_radius s / max_path s"
    using mp R by simp
  moreover have "0 < EPS"
    by (simp add: EPS_def)
  ultimately show "\<not> EPS < - (circle_radius s / max_path s)"
    by linarith
  show "EPS < circle_radius s / max_path s"
    using mp e by (simp add: field_simps)
  show "circle_radius s / max_path s < 1"
    using mp Rmp by simp
  show "circle_radius s / max_path s * (max_path s * - 1) = - circle_radius s"
    using mp by simp
qed

lemma drop_arc_point:
  assumes "centre_drop s p"
  shows "\<not> is_in_bridge s (left_center_x s) (- circle_radius s)"
proof -
  have "left_center_x s < 0"
    using assms by (simp add: centre_drop_def coupled_def)
  with drop_bridge(3) [OF assms] show ?thesis
    by (simp add: is_in_bridge_def)
qed

lemma drop_hits_left_arc:
  assumes "centre_drop s p"
  shows "time_to_hit_circle s p (left_center_x s) n
           = (circle_radius s - EPS * max_path s, pi / 2)"
proof -
  have mp: "0 < max_path s" and R: "0 < circle_radius s"
    using drop_path(1) [OF assms] assms by (simp_all add: centre_drop_def)
  have px: "x_pos s ! p = left_center_x s" and py: "y_pos s ! p = 0"
    using assms by (simp_all add: centre_drop_def)
  have at: "atan2 (0 - - circle_radius s) (left_center_x s - left_center_x s) = pi / 2"
    using R by (simp add: atan2_def)
  have fin: "(circle_radius s / max_path s - EPS) * max_path s = circle_radius s - EPS * max_path s"
    using mp by (simp add: field_simps)
  show ?thesis
    unfolding time_to_hit_circle_def Let_def drop_left_roots [OF assms] px py drop_trig [OF assms]
    using drop_ratio [OF assms] drop_arc_point [OF assms] at fin by simp
qed

lemma drop_misses_right_arc:
  assumes "centre_drop s p"
  shows "time_to_hit_circle s p (right_center_x s) n = (max_path s, n)"
  unfolding time_to_hit_circle_def Let_def drop_right_roots [OF assms]
  using EPS_bounds(1) by simp

lemma drop_misses_gate:
  assumes "centre_drop s p"
  shows "time_to_hit_gate s p = max_path s"
proof (cases "gate_is_flat s")
  case True
  then show ?thesis
    by (simp add: time_to_hit_gate_def drop_trig [OF assms])
next
  case False
  have px: "x_pos s ! p = left_center_x s" and py: "y_pos s ! p = 0"
    using assms by (simp_all add: centre_drop_def)
  have l: "gate_arc_round s p LEFT (1, - 1, - 1)
             = (1, - (circle_radius s / max_path s), circle_radius s / max_path s)"
    unfolding gate_arc_round_def Let_def px py drop_trig [OF assms]
    using drop_ratio [OF assms] drop_arc_point [OF assms]
    by (simp add: drop_left_roots [OF assms])
  have r: "gate_arc_round s p RIGHT (1, - (circle_radius s / max_path s), circle_radius s / max_path s)
             = (1, - (circle_radius s / max_path s), circle_radius s / max_path s)"
    unfolding gate_arc_round_def Let_def px py drop_trig [OF assms]
    using drop_ratio [OF assms] drop_arc_point [OF assms]
    by (simp add: drop_right_roots [OF assms])
  show ?thesis
    unfolding time_to_hit_gate_def Let_def l r using False by simp
qed

lemma drop_misses_middle:
  assumes "centre_drop s p"
  shows "time_to_hit_middle s p = max_path s"
  by (simp add: time_to_hit_middle_def drop_trig [OF assms])

lemma drop_reflection: "get_reflection_angle (- (PI / 2)) (pi / 2) = pi / 2"
proof -
  have "(2 * (pi / 2) - - (pi / 2) + pi) / (2 * pi) = 5 / 4"
    by (simp add: field_simps)
  then have "trunc_real ((2 * (pi / 2) - - (PI / 2) + PI) / (2 * PI)) = 1"
    by (simp add: PI_def trunc_real_def)
  then show ?thesis
    by (simp add: get_reflection_angle_def fmod_def PI_def)
qed

lemma drop_select:
  assumes "centre_drop s p"
  shows "select_impact s p a = (circle_radius s - EPS * max_path s, pi / 2)"
proof -
  have lt: "circle_radius s - EPS * max_path s < max_path s"
    using drop_path [OF assms] EPS_bounds(1) by (smt (verit) mult_pos_pos)
  have dir: "directions s ! p = - PI / 2"
    using assms by (simp add: centre_drop_def)
  show ?thesis
    unfolding select_impact_def Let_def
    using lt EPS_bounds(1)
    by (simp add: drop_misses_bridge [OF assms] drop_hits_left_arc [OF assms]
        drop_misses_right_arc [OF assms] drop_misses_gate [OF assms]
        drop_misses_middle [OF assms] dir drop_reflection)
qed

text \<open>
  Claim C8. In a geometry as \<open>setup\<close> couples it (\<open>setup_coupled\<close>), with \<open>0 < R\<close>,
  \<open>0 \<le> h < 2 R\<close>, \<open>0 \<le> D\<close> and \<open>EPS * max_path < R\<close>, for a particle at the centre of
  the left reservoir with direction \<open>-\<pi>/2\<close>, \<open>compute_next_impact\<close> plans the impact on
  the arc of the left reservoir: the travel time is \<open>R\<close> less the bias \<open>EPS * max_path\<close>,
  the next position is \<open>(left_center_x, -R)\<close> up to that bias, and the next direction
  is \<open>+\<pi>/2\<close>. Both gate modes are covered.
\<close>

theorem centre_drop_hits_arc:
  assumes "centre_drop s p"
  shows "compute_next_impact (Suc fuel) s p =
     Inr (s\<lparr>next_x_pos := (next_x_pos s)[p := left_center_x s],
            next_y_pos := (next_y_pos s)[p := - circle_radius s + EPS * max_path s],
            next_impact_times := (next_impact_times s)[p := time s + (circle_radius s - EPS * max_path s)],
            next_directions := (next_directions s)[p := PI / 2]\<rparr>)"
proof -
  have ne: "circle_radius s - EPS * max_path s \<noteq> max_path s"
    using drop_path [OF assms] EPS_bounds(1) by (smt (verit) mult_pos_pos)
  have px: "x_pos s ! p = left_center_x s" and py: "y_pos s ! p = 0"
    using assms by (simp_all add: centre_drop_def)
  show ?thesis
    using ne by (simp add: drop_select [OF assms] px py drop_trig [OF assms] PI_def)
qed

theorem centre_drop_hits_arc_witness:
  "centre_drop drop_sim 0
   \<and> compute_next_impact (Suc 0) drop_sim 0 =
       Inr (drop_sim\<lparr>next_x_pos := [- 6], next_y_pos := [- 5 + 28 * EPS],
                     next_impact_times := [5 - 28 * EPS], next_directions := [pi / 2]\<rparr>)"
proof -
  have "sqrt (5\<^sup>2 - 6\<^sup>2 / 4) = 4"
    by (simp add: real_sqrt_eq_iff [symmetric, of 16] del: real_sqrt_eq_iff)
  then have c: "centre_drop drop_sim 0"
    by (simp add: centre_drop_def coupled_def drop_sim_def demo_sim_eq EPS_def)
  from centre_drop_hits_arc [OF c, of 0] c show ?thesis
    by (simp add: drop_sim_def demo_sim_eq PI_def)
qed

section \<open>The bias of the event times\<close>

lemma bridge_time_biased:
  "fst (time_to_hit_bridge s p n) = max_path s
   \<or> (\<exists>T. fst (time_to_hit_bridge s p n) = T - EPS * max_path s
          \<and> (y_pos s ! p + T * sin (directions s ! p) = - bridge_height s / 2
              \<or> y_pos s ! p + T * sin (directions s ! p) = bridge_height s / 2))"
proof (cases "max_path s * cos (directions s ! p) * 0
                - max_path s * sin (directions s ! p) * bridge_length s = 0")
  case True
  then show ?thesis
    by (simp add: time_to_hit_bridge_def)
next
  case False
  then have nz: "max_path s \<noteq> 0" "sin (directions s ! p) \<noteq> 0" "bridge_length s \<noteq> 0"
    by auto
  define t1 where "t1 = ((- bridge_length s / 2 - x_pos s ! p) * 0
        - (- bridge_height s / 2 - y_pos s ! p) * bridge_length s)
      / (max_path s * cos (directions s ! p) * 0
          - max_path s * sin (directions s ! p) * bridge_length s)"
  define t2 where "t2 = ((- bridge_length s / 2 - x_pos s ! p) * 0
        - (bridge_height s / 2 - y_pos s ! p) * bridge_length s)
      / (max_path s * cos (directions s ! p) * 0
          - max_path s * sin (directions s ! p) * bridge_length s)"
  have h1: "y_pos s ! p + t1 * max_path s * sin (directions s ! p) = - bridge_height s / 2"
    using nz by (simp add: t1_def field_simps)
  have h2: "y_pos s ! p + t2 * max_path s * sin (directions s ! p) = bridge_height s / 2"
    using nz by (simp add: t2_def field_simps)
  have "fst (time_to_hit_bridge s p n) = 1 * max_path s
      \<or> fst (time_to_hit_bridge s p n) = (t1 - EPS) * max_path s
      \<or> fst (time_to_hit_bridge s p n) = (t2 - EPS) * max_path s"
    using False unfolding time_to_hit_bridge_def Let_def t1_def t2_def
    by (simp split: if_splits prod.splits)
  then consider "fst (time_to_hit_bridge s p n) = max_path s"
    | "fst (time_to_hit_bridge s p n) = t1 * max_path s - EPS * max_path s"
    | "fst (time_to_hit_bridge s p n) = t2 * max_path s - EPS * max_path s"
    by (auto simp: algebra_simps)
  then show ?thesis
  proof cases
    case 1
    then show ?thesis by simp
  next
    case 2
    with h1 show ?thesis by blast
  next
    case 3
    with h2 show ?thesis by blast
  qed
qed

lemma quadratic_root:
  fixes a b c r t :: real
  assumes "a \<noteq> 0" and "r * r = b * b - 4 * a * c"
    and "t = (- b - r) / (2 * a) \<or> t = (- b + r) / (2 * a)"
  shows "a * (t * t) + b * t + c = 0"
proof -
  have "2 * a * t + b = - r \<or> 2 * a * t + b = r"
    using assms(1,3) by (auto simp: field_simps)
  then have "(2 * a * t + b) * (2 * a * t + b) = r * r"
    by auto
  then have "4 * a * (a * (t * t) + b * t + c) = 0"
    unfolding assms(2) by (simp add: algebra_simps)
  with assms(1) show ?thesis
    by simp
qed

lemma circle_roots:
  assumes "circle_intersections s p c t12 = (t1, t2)"
  shows "(t1, t2) = t12
    \<or> (t1 = 0 \<or> on_circle s p c (t1 * max_path s)) \<and> (t2 = 0 \<or> on_circle s p c (t2 * max_path s))"
proof -
  define tpx where "tpx = (x_pos s ! p - c) / circle_radius s"
  define tpy where "tpy = (y_pos s ! p - 0) / circle_radius s"
  define tax where "tax = max_path s * cos (directions s ! p) / circle_radius s"
  define tay where "tay = max_path s * sin (directions s ! p) / circle_radius s"
  define a where "a = tax * tax + tay * tay"
  define b where "b = 2 * tpx * tax + 2 * tpy * tay"
  define cc where "cc = tpx * tpx + tpy * tpy - 1"
  define D where "D = b * b - 4 * a * cc"
  have unfold: "circle_intersections s p c t12
      = (if D \<ge> 0 then ((- b - sqrt D) / (2 * a), (- b + sqrt D) / (2 * a)) else t12)"
    unfolding circle_intersections_def Let_def D_def cc_def b_def a_def tax_def tay_def tpx_def tpy_def ..
  show ?thesis
  proof (cases "D \<ge> 0")
    case False
    with assms unfold show ?thesis by simp
  next
    case True
    with assms unfold have t: "t1 = (- b - sqrt D) / (2 * a)" "t2 = (- b + sqrt D) / (2 * a)"
      by simp_all
    show ?thesis
    proof (cases "a = 0")
      case True
      with t show ?thesis by simp
    next
      case False
      then have R: "circle_radius s \<noteq> 0"
        by (auto simp: a_def tax_def tay_def)
      have rr: "sqrt D * sqrt D = b * b - 4 * a * cc"
        using \<open>D \<ge> 0\<close> by (simp add: D_def)
      have geo: "on_circle s p c (t * max_path s)" if "a * (t * t) + b * t + cc = 0" for t
      proof -
        have "(x_pos s ! p + t * max_path s * cos (directions s ! p) - c)\<^sup>2
              + (y_pos s ! p + t * max_path s * sin (directions s ! p))\<^sup>2 - (circle_radius s)\<^sup>2
            = (circle_radius s)\<^sup>2 * (a * (t * t) + b * t + cc)"
          using R unfolding a_def b_def cc_def tax_def tay_def tpx_def tpy_def
          by (simp add: power2_eq_square field_simps)
        with that show ?thesis
          by (simp add: on_circle_def)
      qed
      have "a * (t1 * t1) + b * t1 + cc = 0" "a * (t2 * t2) + b * t2 + cc = 0"
        using quadratic_root [OF False rr] t by blast+
      then show ?thesis
        using geo by blast
    qed
  qed
qed

lemma circle_time_biased:
  "fst (time_to_hit_circle s p c n) = max_path s
   \<or> (\<exists>T. fst (time_to_hit_circle s p c n) = T - EPS * max_path s \<and> on_circle s p c T)"
proof -
  obtain t1 t2 where ci: "circle_intersections s p c (- 1, - 1) = (t1, t2)"
    by (cases "circle_intersections s p c (- 1, - 1)")
  have pos: "0 < EPS"
    by (simp add: EPS_def)
  have on: "on_circle s p c (t * max_path s)" if "EPS < t" "t = t1 \<or> t = t2" for t
    using circle_roots [OF ci] that pos by auto
  have "fst (time_to_hit_circle s p c n) = 1 * max_path s
      \<or> EPS < t1 \<and> fst (time_to_hit_circle s p c n) = (t1 - EPS) * max_path s
      \<or> EPS < t2 \<and> fst (time_to_hit_circle s p c n) = (t2 - EPS) * max_path s"
    unfolding time_to_hit_circle_def Let_def ci
    by (simp split: if_splits prod.splits)
  then consider "fst (time_to_hit_circle s p c n) = max_path s"
    | "EPS < t1" "fst (time_to_hit_circle s p c n) = t1 * max_path s - EPS * max_path s"
    | "EPS < t2" "fst (time_to_hit_circle s p c n) = t2 * max_path s - EPS * max_path s"
    by (auto simp: algebra_simps)
  then show ?thesis
  proof cases
    case 1
    then show ?thesis by simp
  next
    case 2
    with on [of t1] show ?thesis by blast
  next
    case 3
    with on [of t2] show ?thesis by blast
  qed
qed

lemma middle_time_biased:
  "time_to_hit_middle s p = max_path s
   \<or> (\<exists>T. time_to_hit_middle s p = T + EPS * max_path s
          \<and> x_pos s ! p + T * cos (directions s ! p) = 0)"
proof (cases "max_path s * cos (directions s ! p) * bridge_height s
                - max_path s * sin (directions s ! p) * 0 = 0")
  case True
  then show ?thesis
    by (simp add: time_to_hit_middle_def)
next
  case False
  then have nz: "max_path s \<noteq> 0" "cos (directions s ! p) \<noteq> 0" "bridge_height s \<noteq> 0"
    by auto
  define t where "t = ((0 - x_pos s ! p) * bridge_height s
        - (- bridge_height s / 2 - y_pos s ! p) * 0)
      * (1 / (max_path s * cos (directions s ! p) * bridge_height s
                - max_path s * sin (directions s ! p) * 0))"
  have h: "x_pos s ! p + t * max_path s * cos (directions s ! p) = 0"
    using nz by (simp add: t_def field_simps)
  have "time_to_hit_middle s p = 1 * max_path s
      \<or> time_to_hit_middle s p = (t + EPS) * max_path s"
    using False unfolding time_to_hit_middle_def Let_def t_def
    by (simp split: if_splits)
  then consider "time_to_hit_middle s p = max_path s"
    | "time_to_hit_middle s p = t * max_path s + EPS * max_path s"
    by (auto simp: algebra_simps)
  then show ?thesis
  proof cases
    case 1
    then show ?thesis by simp
  next
    case 2
    with h show ?thesis by blast
  qed
qed

lemma flat_gate_time_exact:
  assumes "gate_is_flat s"
  shows "time_to_hit_gate s p = max_path s
   \<or> x_pos s ! p + time_to_hit_gate s p * cos (directions s ! p) = - bridge_length s / 2
   \<or> x_pos s ! p + time_to_hit_gate s p * cos (directions s ! p) = bridge_length s / 2"
proof (cases "cos (directions s ! p) = 0")
  case True
  with assms show ?thesis
    by (simp add: time_to_hit_gate_def)
next
  case False
  have "time_to_hit_gate s p = max_path s
      \<or> time_to_hit_gate s p = (- bridge_length s / 2 - x_pos s ! p) / cos (directions s ! p)
      \<or> time_to_hit_gate s p = (bridge_length s / 2 - x_pos s ! p) / cos (directions s ! p)"
    using assms False unfolding time_to_hit_gate_def Let_def
    by (simp split: if_splits)
  then show ?thesis
    using False by (auto simp: field_simps)
qed

lemma gate_arc_round_roots:
  assumes "gate_arc_round s p d (m, u1, u2) = (m', t1, t2)"
    and "m = 1 \<or> arc_root s p m"
    and "\<not> EPS < u1 \<or> arc_root s p u1"
    and "\<not> EPS < u2 \<or> arc_root s p u2"
  shows "(m' = 1 \<or> arc_root s p m')
    \<and> (\<not> EPS < t1 \<or> arc_root s p t1) \<and> (\<not> EPS < t2 \<or> arc_root s p t2)"
proof -
  define c where "c = (if d = RIGHT then right_center_x s else left_center_x s)"
  have ci: "circle_intersections s p c (u1, u2) = (t1, t2)"
    using assms(1) unfolding gate_arc_round_def Let_def c_def
    by (auto split: prod.splits if_splits)
  have pos: "0 < EPS"
    by (simp add: EPS_def)
  have c: "on_circle s p c T \<Longrightarrow> on_circle s p (left_center_x s) T \<or> on_circle s p (right_center_x s) T"
    for T
    by (simp add: c_def split: if_splits)
  have r1: "\<not> EPS < t1 \<or> arc_root s p t1"
    using circle_roots [OF ci] assms(3) pos c [of "t1 * max_path s"]
    by (auto simp: arc_root_def)
  have r2: "\<not> EPS < t2 \<or> arc_root s p t2"
    using circle_roots [OF ci] assms(4) pos c [of "t2 * max_path s"]
    by (auto simp: arc_root_def)
  have "m' = m \<or> EPS < t1 \<and> m' = t1 \<or> EPS < t2 \<and> m' = t2"
    using assms(1) unfolding gate_arc_round_def Let_def c_def [symmetric]
    by (auto simp: ci split: if_splits)
  with assms(2) r1 r2 show ?thesis
    by auto
qed

lemma arc_gate_time_exact:
  assumes "\<not> gate_is_flat s"
  shows "time_to_hit_gate s p = max_path s
   \<or> on_circle s p (left_center_x s) (time_to_hit_gate s p)
   \<or> on_circle s p (right_center_x s) (time_to_hit_gate s p)"
proof -
  obtain m1 a1 a2 where l: "gate_arc_round s p LEFT (1, - 1, - 1) = (m1, a1, a2)"
    by (cases "gate_arc_round s p LEFT (1, - 1, - 1)") auto
  obtain m2 b1 b2 where r: "gate_arc_round s p RIGHT (m1, a1, a2) = (m2, b1, b2)"
    by (cases "gate_arc_round s p RIGHT (m1, a1, a2)") auto
  have pos: "0 < EPS"
    by (simp add: EPS_def)
  from gate_arc_round_roots [OF l] pos
  have "(m1 = 1 \<or> arc_root s p m1)
    \<and> (\<not> EPS < a1 \<or> arc_root s p a1) \<and> (\<not> EPS < a2 \<or> arc_root s p a2)"
    by simp
  with gate_arc_round_roots [OF r] have "m2 = 1 \<or> arc_root s p m2"
    by blast
  moreover have "time_to_hit_gate s p = m2 * max_path s"
    unfolding time_to_hit_gate_def Let_def l r using assms by simp
  ultimately show ?thesis
    by (auto simp: arc_root_def)
qed

lemma select_impact_times:
  "\<exists>n1 n2 n3. fst (select_impact s p a) \<in>
     {max_path s, fst (time_to_hit_bridge s p n1),
      fst (time_to_hit_circle s p (left_center_x s) n2),
      fst (time_to_hit_circle s p (right_center_x s) n3),
      time_to_hit_gate s p + EPS, time_to_hit_middle s p + EPS}"
proof -
  obtain tb n1 where b: "time_to_hit_bridge s p a = (tb, n1)"
    by (cases "time_to_hit_bridge s p a")
  obtain tl n2 where l: "time_to_hit_circle s p (left_center_x s) n1 = (tl, n2)"
    by (cases "time_to_hit_circle s p (left_center_x s) n1")
  obtain tr n3 where r: "time_to_hit_circle s p (right_center_x s) n2 = (tr, n3)"
    by (cases "time_to_hit_circle s p (right_center_x s) n2")
  have "fst (select_impact s p a) \<in>
     {max_path s, tb, tl, tr, time_to_hit_gate s p + EPS, time_to_hit_middle s p + EPS}"
    by (simp add: select_impact_def Let_def b l r split: if_splits)
  then have "fst (select_impact s p a) \<in>
     {max_path s, fst (time_to_hit_bridge s p a),
      fst (time_to_hit_circle s p (left_center_x s) n1),
      fst (time_to_hit_circle s p (right_center_x s) n2),
      time_to_hit_gate s p + EPS, time_to_hit_middle s p + EPS}"
    by (simp add: b l r)
  then show ?thesis
    by blast
qed

lemma rail_time: "fst (time_to_hit_bridge rail_sim 0 0) = 3 - 28 * EPS"
  by (simp add: time_to_hit_bridge_def rail_sim_def demo_sim_eq PI_def EPS_def Let_def)

lemma midway_time:
  "time_to_hit_middle midway_sim 0 = 1 + 28 * EPS"
  "fst (select_impact midway_sim 0 0) = 1 + 29 * EPS"
  by (simp_all add: midway_sim_def demo_sim_eq axis_eval middle_right_moving)

text \<open>
  Claim C4, as stated, fails. A particle at the origin heading straight up reaches the
  upper rail after the time 3; \<open>time_to_hit_bridge\<close> returns \<open>3 - 28 EPS\<close>, not
  \<open>3 - EPS\<close>. A particle at \<open>(-1, 0)\<close> heading right reaches the mid-line after the time
  1; \<open>time_to_hit_middle\<close> returns \<open>1 + 28 EPS\<close> and \<open>compute_next_impact\<close> plans with
  \<open>1 + 29 EPS\<close>, not \<open>1 + EPS\<close>. (28 is \<open>max_path\<close>.)
\<close>

theorem event_times_not_biased_by_eps:
  "fst (time_to_hit_bridge rail_sim 0 0) = 3 - 28 * EPS
   \<and> y_pos rail_sim ! 0 + 3 * sin (directions rail_sim ! 0) = bridge_height rail_sim / 2
   \<and> fst (time_to_hit_bridge rail_sim 0 0) \<noteq> 3 - EPS
   \<and> time_to_hit_middle midway_sim 0 = 1 + 28 * EPS
   \<and> fst (select_impact midway_sim 0 0) = 1 + 29 * EPS
   \<and> x_pos midway_sim ! 0 + 1 * cos (directions midway_sim ! 0) = 0
   \<and> fst (select_impact midway_sim 0 0) \<noteq> 1 + EPS"
  unfolding rail_time midway_time
  by (simp add: rail_sim_def midway_sim_def demo_sim_eq PI_def EPS_def)

text \<open>
  Claim C4, amended. Every candidate time is either \<open>max_path\<close> (nothing hit) or the
  exact time \<open>T\<close> to the boundary with this bias: for the bridge rails and the reservoir
  arcs \<open>T - EPS * max_path\<close>; for the gate \<open>T\<close> itself, to which \<open>compute_next_impact\<close>
  adds \<open>EPS\<close> when it selects it; for the mid-line \<open>T + EPS * max_path\<close>, to which
  \<open>compute_next_impact\<close> adds a further \<open>EPS\<close>. \<open>T\<close> is exact in that the particle is
  then on a rail (\<open>y = \<plusminus>h/2\<close>), on the circle, on a gate line (\<open>x = \<plusminus>L/2\<close>, flat gate) or
  on a reservoir circle (arc gate), or on the mid-line (\<open>x = 0\<close>).
\<close>

theorem event_time_biases:
  "(fst (time_to_hit_bridge s p n) = max_path s
     \<or> (\<exists>T. fst (time_to_hit_bridge s p n) = T - EPS * max_path s
            \<and> (y_pos s ! p + T * sin (directions s ! p) = - bridge_height s / 2
                \<or> y_pos s ! p + T * sin (directions s ! p) = bridge_height s / 2)))
   \<and> (fst (time_to_hit_circle s p c n) = max_path s
     \<or> (\<exists>T. fst (time_to_hit_circle s p c n) = T - EPS * max_path s \<and> on_circle s p c T))
   \<and> (time_to_hit_gate s p = max_path s
     \<or> (if gate_is_flat s
         then x_pos s ! p + time_to_hit_gate s p * cos (directions s ! p) = - bridge_length s / 2
              \<or> x_pos s ! p + time_to_hit_gate s p * cos (directions s ! p) = bridge_length s / 2
         else on_circle s p (left_center_x s) (time_to_hit_gate s p)
              \<or> on_circle s p (right_center_x s) (time_to_hit_gate s p)))
   \<and> (time_to_hit_middle s p = max_path s
     \<or> (\<exists>T. time_to_hit_middle s p = T + EPS * max_path s
            \<and> x_pos s ! p + T * cos (directions s ! p) = 0))
   \<and> (\<exists>n1 n2 n3. fst (select_impact s p a) \<in>
         {max_path s, fst (time_to_hit_bridge s p n1),
          fst (time_to_hit_circle s p (left_center_x s) n2),
          fst (time_to_hit_circle s p (right_center_x s) n3),
          time_to_hit_gate s p + EPS, time_to_hit_middle s p + EPS})"
proof (intro conjI)
  show "time_to_hit_gate s p = max_path s
     \<or> (if gate_is_flat s
         then x_pos s ! p + time_to_hit_gate s p * cos (directions s ! p) = - bridge_length s / 2
              \<or> x_pos s ! p + time_to_hit_gate s p * cos (directions s ! p) = bridge_length s / 2
         else on_circle s p (left_center_x s) (time_to_hit_gate s p)
              \<or> on_circle s p (right_center_x s) (time_to_hit_gate s p))"
    using flat_gate_time_exact [of s p] arc_gate_time_exact [of s p]
    by (cases "gate_is_flat s") auto
qed (rule bridge_time_biased circle_time_biased middle_time_biased select_impact_times)+

theorem event_time_biases_witness:
  "fst (time_to_hit_bridge rail_sim 0 0) \<noteq> max_path rail_sim
   \<and> (\<exists>T. fst (time_to_hit_bridge rail_sim 0 0) = T - EPS * max_path rail_sim
          \<and> (y_pos rail_sim ! 0 + T * sin (directions rail_sim ! 0) = - bridge_height rail_sim / 2
              \<or> y_pos rail_sim ! 0 + T * sin (directions rail_sim ! 0) = bridge_height rail_sim / 2))
   \<and> time_to_hit_middle midway_sim 0 \<noteq> max_path midway_sim
   \<and> (\<exists>T. time_to_hit_middle midway_sim 0 = T + EPS * max_path midway_sim
          \<and> x_pos midway_sim ! 0 + T * cos (directions midway_sim ! 0) = 0)"
proof -
  have r: "fst (time_to_hit_bridge rail_sim 0 0) \<noteq> max_path rail_sim"
    unfolding rail_time by (simp add: rail_sim_def demo_sim_eq EPS_def)
  have m: "time_to_hit_middle midway_sim 0 \<noteq> max_path midway_sim"
    unfolding midway_time by (simp add: midway_sim_def demo_sim_eq EPS_def)
  from event_time_biases [of rail_sim 0 0 0 0] r
  have "\<exists>T. fst (time_to_hit_bridge rail_sim 0 0) = T - EPS * max_path rail_sim
          \<and> (y_pos rail_sim ! 0 + T * sin (directions rail_sim ! 0) = - bridge_height rail_sim / 2
              \<or> y_pos rail_sim ! 0 + T * sin (directions rail_sim ! 0) = bridge_height rail_sim / 2)"
    by blast
  moreover from event_time_biases [of midway_sim 0 0 0 0] m
  have "\<exists>T. time_to_hit_middle midway_sim 0 = T + EPS * max_path midway_sim
          \<and> x_pos midway_sim ! 0 + T * cos (directions midway_sim ! 0) = 0"
    by blast
  ultimately show ?thesis
    using r m by blast
qed

section \<open>Starting a run: exceptions and initialisation\<close>

lemma moves_only_refl [simp]: "moves_only p s s"
  by (simp add: moves_only_def)

lemma moves_only_trans: "moves_only p s s1 \<Longrightarrow> moves_only p s1 s2 \<Longrightarrow> moves_only p s s2"
  by (simp add: moves_only_def)

lemma moves_only_accepted:
  "moves_only q s s' \<Longrightarrow> q \<noteq> p \<Longrightarrow> accepted s' p d = accepted s p d"
  by (simp add: moves_only_def accepted_def is_in_circle_def is_in_gate_def is_in_bridge_def)

lemma moves_only_placed:
  "moves_only q s s' \<Longrightarrow> q \<noteq> p \<Longrightarrow> placed s' p = placed s p"
  by (simp add: placed_def moves_only_accepted)

lemma reset_sample_result:
  "reset_sample fuel s p bx by d = Inr s' \<Longrightarrow> moves_only p s s' \<and> accepted s' p d"
proof (induction fuel arbitrary: s)
  case 0
  then show ?case by simp
next
  case (Suc fuel)
  show ?case
  proof (cases "\<not> is_in_circle s (x_pos s ! p) (y_pos s ! p) d
         \<or> is_in_gate s (x_pos s ! p) (y_pos s ! p) d
         \<or> is_in_bridge s (x_pos s ! p) (y_pos s ! p)")
    case True
    define s1 where "s1 = drawn (s\<lparr>x_pos := (x_pos s)[p := (draw s - 0.5) * bx * 2]\<rparr>)"
    define s2 where "s2 = drawn (s1\<lparr>y_pos := (y_pos s1)[p := (draw s1 - 0.5) * by * 2]\<rparr>)"
    from True Suc.prems have "reset_sample fuel s2 p bx by d = Inr s'"
      by (simp add: Let_def s1_def s2_def)
    from Suc.IH [OF this] have "moves_only p s2 s'" "accepted s' p d"
      by simp_all
    moreover have "moves_only p s s2"
      by (simp add: moves_only_def s2_def s1_def drawn_def)
    ultimately show ?thesis
      by (blast intro: moves_only_trans)
  next
    case False
    with Suc.prems show ?thesis by (auto simp: accepted_def)
  qed
qed

lemma reset_particle_result:
  assumes "reset_particle fuel s p bx by d = Inr s'"
  shows "moves_only p s s' \<and> accepted s' p d"
proof -
  define s2 where "s2 = s\<lparr>x_pos := (x_pos s)[p := 0], y_pos := (y_pos s)[p := 0]\<rparr>"
  from assms obtain s3 where r: "reset_sample fuel s2 p bx by d = Inr s3"
    and s': "s' = drawn (s3\<lparr>directions := (directions s3)[p := (draw s3 - 0.5) * 2 * PI]\<rparr>)"
    by (auto simp: reset_particle_def Let_def s2_def split: sum.splits)
  from reset_sample_result [OF r] have "moves_only p s2 s3" "accepted s3 p d"
    by simp_all
  moreover have "moves_only p s s2"
    by (simp add: moves_only_def s2_def)
  moreover have "moves_only p s3 s'" "accepted s' p d = accepted s3 p d"
    by (simp_all add: s' moves_only_def drawn_def accepted_def is_in_circle_def is_in_gate_def
        is_in_bridge_def)
  ultimately show ?thesis
    by (blast intro: moves_only_trans)
qed

lemma compute_next_impact_result:
  "compute_next_impact fuel s p = Inr s' \<Longrightarrow> moves_only p s s' \<and> (placed s p \<longrightarrow> placed s' p)"
proof (induction fuel arbitrary: s)
  case 0
  then show ?case by simp
next
  case (Suc fuel)
  obtain nt na where sel: "select_impact s p 0 = (nt, na)"
    by (cases "select_impact s p 0")
  show ?case
  proof (cases "nt = max_path s")
    case True
    define d where "d = (if x_pos s ! p > 0 then RIGHT else LEFT)"
    from True Suc.prems sel obtain s2 where
      r: "reset_particle fuel (s\<lparr>reset_counter := reset_counter s + 1\<rparr>) p
            (circle_distance s / 2 + circle_radius s * 2) (circle_radius s) d = Inr s2"
      and c: "compute_next_impact fuel s2 p = Inr s'"
      by (auto simp: Let_def d_def split: sum.splits)
    from reset_particle_result [OF r]
    have m: "moves_only p (s\<lparr>reset_counter := reset_counter s + 1\<rparr>) s2" and a: "accepted s2 p d"
      by simp_all
    from a have "placed s2 p"
      by (auto simp: placed_def d_def split: if_splits)
    with Suc.IH [OF c] have "moves_only p s2 s'" "placed s' p"
      by simp_all
    moreover from m have "moves_only p s s2"
      by (simp add: moves_only_def)
    ultimately show ?thesis
      by (blast intro: moves_only_trans)
  next
    case False
    with Suc.prems sel show ?thesis
      by (auto simp: moves_only_def placed_def accepted_def is_in_circle_def is_in_gate_def
          is_in_bridge_def)
  qed
qed

lemma placed_in_left [simp]: "placed (s\<lparr>in_left := w\<rparr>) p = placed s p"
  by (simp add: placed_def accepted_def is_in_circle_def is_in_gate_def is_in_bridge_def)

lemma start_particles_result:
  assumes "start_particles fuel s bx by side ps = Inr s'" and "side < 2"
  shows "(\<forall>p \<in> set ps. placed s' p) \<and> (\<forall>p. p \<notin> set ps \<longrightarrow> placed s p \<longrightarrow> placed s' p)
    \<and> num_particles s' = num_particles s \<and> time s' = time s"
  using assms(1)
proof (induction ps arbitrary: s)
  case Nil
  then show ?case by simp
next
  case (Cons p ps)
  from Cons.prems obtain s1 s2 where
    r: "reset_particle fuel s p bx by side = Inr s1"
    and c: "compute_next_impact fuel s1 p = Inr s2"
    and rec: "start_particles fuel (if side = LEFT then s2\<lparr>in_left := in_left s2 + 1\<rparr> else s2)
                bx by side ps = Inr s'"
    by (auto split: sum.splits)
  define s3 where "s3 = (if side = LEFT then s2\<lparr>in_left := in_left s2 + 1\<rparr> else s2)"
  from reset_particle_result [OF r] have m1: "moves_only p s s1" and a: "accepted s1 p side"
    by simp_all
  from a assms(2) have "placed s1 p"
    by (cases "side = LEFT") (auto simp: placed_def less_2_cases_iff)
  with compute_next_impact_result [OF c] have m2: "moves_only p s1 s2" and p2: "placed s2 p"
    by simp_all
  have m3: "moves_only p s2 s3"
    by (simp add: s3_def moves_only_def)
  have p3: "placed s3 p"
    by (simp add: s3_def p2)
  have m: "moves_only p s s3"
    using m1 m2 m3 by (blast intro: moves_only_trans)
  from Cons.IH [OF rec [folded s3_def]]
  have ih: "\<forall>q \<in> set ps. placed s' q" "\<forall>q. q \<notin> set ps \<longrightarrow> placed s3 q \<longrightarrow> placed s' q"
    "num_particles s' = num_particles s3" "time s' = time s3"
    by simp_all
  have "placed s' p"
    using ih(1,2) p3 by (cases "p \<in> set ps") auto
  moreover have "placed s' q" if "q \<notin> set (p # ps)" "placed s q" for q
    using that ih(2) moves_only_placed [OF m, of q] by auto
  ultimately show ?case
    using ih m by (auto simp: moves_only_def)
qed

lemma reset_sample_no_throw: "reset_sample fuel s p bx by d \<in> range Inr \<union> {Inl OutOfFuel}"
proof (induction fuel arbitrary: s)
  case 0
  then show ?case by simp
next
  case (Suc fuel)
  then show ?case by (simp add: Let_def)
qed

lemma reset_particle_no_throw: "reset_particle fuel s p bx by d \<in> range Inr \<union> {Inl OutOfFuel}"
  using reset_sample_no_throw [of fuel "s\<lparr>x_pos := (x_pos s)[p := 0], y_pos := (y_pos s)[p := 0]\<rparr>" p bx "by" d]
  by (auto simp: reset_particle_def Let_def split: sum.splits)

lemma compute_next_impact_no_throw: "compute_next_impact fuel s p \<in> range Inr \<union> {Inl OutOfFuel}"
proof (induction fuel arbitrary: s)
  case 0
  then show ?case by simp
next
  case (Suc fuel)
  obtain nt na where sel: "select_impact s p 0 = (nt, na)"
    by (cases "select_impact s p 0")
  show ?case
  proof (cases "nt = max_path s")
    case True
    define r where "r = reset_particle fuel (s\<lparr>reset_counter := reset_counter s + 1\<rparr>) p
            (circle_distance s / 2 + circle_radius s * 2) (circle_radius s)
            (if x_pos s ! p > 0 then RIGHT else LEFT)"
    have "r \<in> range Inr \<union> {Inl OutOfFuel}"
      unfolding r_def by (rule reset_particle_no_throw)
    then show ?thesis
      using True sel Suc.IH
      by (cases r) (auto simp: Let_def r_def [symmetric])
  next
    case False
    with sel show ?thesis by simp
  qed
qed

lemma start_particles_no_throw:
  "start_particles fuel s bx by side ps \<in> range Inr \<union> {Inl OutOfFuel}"
proof (induction ps arbitrary: s)
  case Nil
  then show ?case by simp
next
  case (Cons p ps)
  show ?case
  proof (cases "reset_particle fuel s p bx by side")
    case (Inl e)
    with reset_particle_no_throw [of fuel s p bx "by" side] show ?thesis by auto
  next
    case r: (Inr s1)
    show ?thesis
    proof (cases "compute_next_impact fuel s1 p")
      case (Inl e)
      with compute_next_impact_no_throw [of fuel s1 p] r show ?thesis by auto
    next
      case (Inr s2)
      with r Cons.IH show ?thesis by simp
    qed
  qed
qed

lemma placed_sorted_measured [simp]: "placed (measure_step (sort_indices s)) p = placed s p"
  by (simp add: measure_step_def sort_indices_def placed_def accepted_def is_in_circle_def
      is_in_gate_def is_in_bridge_def)

lemma start_invalid:
  assumes "\<not> valid_start s left_ratio"
  shows "\<exists>e. start fuel s left_ratio = Inl (Throw e)"
  using assms by (auto simp: valid_start_def start_def Let_def)

lemma start_valid:
  assumes "valid_start s left_ratio"
  shows "start fuel s left_ratio = Inl OutOfFuel
    \<or> (\<exists>s'. start fuel s left_ratio = Inr s' \<and> (\<forall>p < nat (num_particles s). placed s' p)
            \<and> time s' = 0 \<and> num_particles s' = num_particles s)"
proof -
  define s1 where "s1 = s\<lparr>time := 0, last_written_time := 0, in_left := 0\<rparr>"
  define bx where "bx = circle_distance s / 2 + circle_radius s * 2"
  define nl where "nl = nat (trunc_real (left_ratio * of_int (num_particles s)))"
  define first where "first = start_particles fuel s1 bx (circle_radius s) LEFT [0..<nl]"
  have unfold: "start fuel s left_ratio =
      (case first of
         Inl e \<Rightarrow> Inl e
       | Inr s2 \<Rightarrow>
          (case start_particles fuel s2 bx (circle_radius s) RIGHT [nl..<nat (num_particles s2)] of
             Inl e \<Rightarrow> Inl e
           | Inr s3 \<Rightarrow> Inr (measure_step (sort_indices s3))))"
    using assms
    by (auto simp: valid_start_def start_def Let_def s1_def bx_def nl_def first_def not_le not_less
        cong: sum.case_cong)
  show ?thesis
  proof (cases first)
    case (Inl e)
    with start_particles_no_throw [of fuel s1 bx "circle_radius s" LEFT "[0..<nl]"]
    show ?thesis by (auto simp: unfold first_def)
  next
    case f: (Inr s2)
    from start_particles_result [OF f [unfolded first_def]]
    have a: "\<forall>p \<in> set [0..<nl]. placed s2 p" "num_particles s2 = num_particles s" "time s2 = 0"
      by (simp_all add: s1_def)
    show ?thesis
    proof (cases "start_particles fuel s2 bx (circle_radius s) RIGHT [nl..<nat (num_particles s2)]")
      case (Inl e)
      with start_particles_no_throw
             [of fuel s2 bx "circle_radius s" RIGHT "[nl..<nat (num_particles s2)]"] f
      show ?thesis by (auto simp: unfold)
    next
      case g: (Inr s3)
      from start_particles_result [OF g]
      have b: "\<forall>p \<in> set [nl..<nat (num_particles s2)]. placed s3 p"
        "\<forall>p. p \<notin> set [nl..<nat (num_particles s2)] \<longrightarrow> placed s2 p \<longrightarrow> placed s3 p"
        "num_particles s3 = num_particles s2" "time s3 = time s2"
        by simp_all
      have "placed s3 p" if "p < nat (num_particles s)" for p
      proof (cases "p < nl")
        case True
        with a(1) b(2) show ?thesis by simp
      next
        case False
        with that a(2) b(1) show ?thesis by simp
      qed
      then have "\<forall>p < nat (num_particles s). placed (measure_step (sort_indices s3)) p"
        by simp
      then show ?thesis
        using f g a b by (simp add: unfold measure_step_def sort_indices_def)
    qed
  qed
qed

text \<open>
  Claim C6, as stated, fails for a simulation without particles: after \<open>setup\<close>,
  \<open>start\<close> with the ratio 2, which is outside \<open>[0, 1]\<close>, returns normally, since
  \<open>start\<close> tests the product \<open>left_ratio * num_particles\<close>.
\<close>

theorem start_accepts_any_ratio_without_particles:
  "start (Suc 0) (demo_sim 0) 2
     = Inr ((demo_sim 0)\<lparr>measuring_times := [0], total_left := [0]\<rparr>)
   \<and> num_particles (demo_sim 0) = 0 \<and> \<not> (0 \<le> (2 :: real) \<and> (2 :: real) \<le> 1)"
  by (simp add: start_def Let_def demo_sim_eq sort_indices_def measure_step_def trunc_real_def)

text \<open>
  Claim C6, amended. \<open>start\<close> throws if and only if \<open>bridge_height \<ge> 2 circle_radius\<close>,
  or \<open>left_ratio * num_particles\<close> is outside \<open>[0, num_particles]\<close>, or
  \<open>distance_as_channel_length\<close> is set while \<open>gate_is_flat\<close> is not; with at least one
  particle the second condition is \<open>left_ratio\<close> outside \<open>[0, 1]\<close>. Otherwise \<open>start\<close>
  does not throw and does nothing undefined: either its rejection sampling and planning
  have not finished within the fuel, which depends on the random source, or it returns,
  and then the time is 0 and every particle is in a reservoir circle, outside that
  side's gate and outside the bridge.
\<close>

theorem start_throws_iff_invalid:
  "((\<exists>e. start fuel s left_ratio = Inl (Throw e)) \<longleftrightarrow>
      (2 * circle_radius s \<le> bridge_height s
       \<or> left_ratio * of_int (num_particles s) < 0
       \<or> of_int (num_particles s) < left_ratio * of_int (num_particles s)
       \<or> distance_as_channel_length s \<and> \<not> gate_is_flat s))
   \<and> (0 < num_particles s \<longrightarrow>
        ((left_ratio * of_int (num_particles s) < 0
          \<or> of_int (num_particles s) < left_ratio * of_int (num_particles s))
         \<longleftrightarrow> (left_ratio < 0 \<or> 1 < left_ratio)))
   \<and> start fuel s left_ratio \<noteq> Inl Undefined \<and> start fuel s left_ratio \<noteq> Inl DivisionByZero
   \<and> (\<forall>s'. start fuel s left_ratio = Inr s' \<longrightarrow>
         (\<forall>p < nat (num_particles s). placed s' p) \<and> time s' = 0
         \<and> num_particles s' = num_particles s)"
proof (cases "valid_start s left_ratio")
  case True
  have ar: "0 < num_particles s \<longrightarrow>
        ((left_ratio * of_int (num_particles s) < 0
          \<or> of_int (num_particles s) < left_ratio * of_int (num_particles s))
         \<longleftrightarrow> (left_ratio < 0 \<or> 1 < left_ratio))"
    by (auto simp: mult_less_0_iff zero_less_mult_iff)
  from start_valid [OF True, of fuel] True ar show ?thesis
    by (auto simp: valid_start_def)
next
  case False
  have ar: "0 < num_particles s \<longrightarrow>
        ((left_ratio * of_int (num_particles s) < 0
          \<or> of_int (num_particles s) < left_ratio * of_int (num_particles s))
         \<longleftrightarrow> (left_ratio < 0 \<or> 1 < left_ratio))"
    by (auto simp: mult_less_0_iff zero_less_mult_iff)
  from start_invalid [OF False, of fuel] False ar show ?thesis
    by (auto simp: valid_start_def)
qed

theorem start_throws_iff_invalid_witness:
  "start (Suc (Suc 0)) (setup_sim pair_config) 1 = Inr pair_started
   \<and> placed pair_started 0 \<and> placed pair_started 1 \<and> time pair_started = 0
   \<and> (\<exists>e. start (Suc (Suc 0)) (setup_sim pair_config) 2 = Inl (Throw e))"
proof -
  have n: "num_particles (setup_sim pair_config) = 2"
    by (simp add: setup_pair demo_sim_eq)
  from start_throws_iff_invalid [of "Suc (Suc 0)" "setup_sim pair_config" 1] pair_start n
  have a: "placed pair_started 0 \<and> placed pair_started 1 \<and> time pair_started = 0"
    by simp
  from start_throws_iff_invalid [of "Suc (Suc 0)" "setup_sim pair_config" 2] n
  have b: "\<exists>e. start (Suc (Suc 0)) (setup_sim pair_config) 2 = Inl (Throw e)"
    by simp
  from a b pair_start show ?thesis
    by simp
qed

section \<open>The safety repair\<close>

lemma sgn_vec_nonempty: "val \<noteq> [] \<Longrightarrow> sgn_vec val = 1"
  by (cases val) (simp_all add: sgn_vec_def)

text \<open>
  Claim C3. The repair takes the sign of the whole vector \<open>next_x_pos\<close>, which is \<open>1\<close>
  for every vector that has an element (\<open>sgn_vec_nonempty\<close>), not the sign of the
  particle's coordinate: the particle of \<open>stray_sim\<close>, planned at \<open>(-20, 0)\<close> outside the
  domain on the left, is sent to \<open>(+6, 0)\<close>, the centre of the right reservoir, and
  \<open>update\<close> commits it there.
\<close>

theorem repair_sends_left_stray_to_right_centre:
  "\<not> is_in_domain stray_sim (next_x_pos stray_sim ! 0) (next_y_pos stray_sim ! 0)
   \<and> next_x_pos stray_sim ! 0 = - 20
   \<and> next_x_pos (update_repair stray_sim 0) ! 0 = 6
   \<and> next_y_pos (update_repair stray_sim 0) ! 0 = 0
   \<and> right_center_x stray_sim = 6 \<and> left_center_x stray_sim = - 6
   \<and> update (Suc 0) stray_sim 0 =
       Inr (stray_sim\<lparr>x_pos := [6], next_x_pos := [11 - 28 * EPS], next_directions := [pi],
                      next_impact_times := [5 - 28 * EPS], measuring_times := [0],
                      total_left := [0]\<rparr>)"
proof -
  have "update (Suc 0) stray_sim 0 =
       Inr (stray_sim\<lparr>x_pos := [6], next_x_pos := [11 - 28 * EPS], next_directions := [pi],
                      next_impact_times := [5 - 28 * EPS], measuring_times := [0],
                      total_left := [0]\<rparr>)"
    by (simp add: run_eval stray_sim_def sgn_vec_nonempty)
  then show ?thesis
    by (simp add: update_repair_def stray_sim_def demo_sim_eq Let_def is_in_domain_def
        is_in_bridge_def is_in_circle_def sgn_vec_nonempty)
qed

end
